theory Spec2Isabelle
  imports Complex_Main
begin

section \<open>JavaScript values and objects\<close>

text \<open>
  The program is TypeScript running on JavaScript objects that travel through
  \<^verbatim>\<open>JSON.stringify\<close>/\<^verbatim>\<open>JSON.parse\<close> (localStorage) and through the
  function-call arguments of the model service (\<^verbatim>\<open>args: any\<close>). A primitive value is a
  \<open>jsval\<close>; an object is a finite map from property names to primitives, where an absent
  property reads as \<^verbatim>\<open>undefined\<close> (\<open>None\<close>). JSON carries neither \<^verbatim>\<open>NaN\<close> nor
  \<^verbatim>\<open>undefined\<close>, so \<^verbatim>\<open>===\<close> on two property reads is HOL equality on
  \<open>jsval option\<close>. No arithmetic is done on \<open>JNum\<close> payloads by the modelled code;
  only their truthiness (\<open>\<noteq> 0\<close>) is read.
\<close>

datatype jsval = JNull | JBool bool | JNum real | JStr string

type_synonym jsobj = "string \<Rightarrow> jsval option"

fun truthy :: "jsval option \<Rightarrow> bool" where
  "truthy None = False"
| "truthy (Some JNull) = False"
| "truthy (Some (JBool b)) = b"
| "truthy (Some (JNum x)) = (x \<noteq> 0)"
| "truthy (Some (JStr s)) = (s \<noteq> [])"

definition js_or :: "jsval option \<Rightarrow> jsval option \<Rightarrow> jsval option" where
  \<comment> \<open>\<^verbatim>\<open>a || b\<close>\<close>
  "js_or a b = (if truthy a then a else b)"

text \<open>
  Functions of the JavaScript host that the code calls and whose results depend on the
  engine, the locale or the time zone are parameters:
  \<open>getTime v\<close> is \<^verbatim>\<open>new Date(v).getTime()\<close> in milliseconds, \<open>None\<close> for \<^verbatim>\<open>NaN\<close>
  (an invalid date); \<open>toLocaleString v\<close> is \<^verbatim>\<open>new Date(v).toLocaleString()\<close>;
  \<open>toStr v\<close> is the string a template literal makes of \<open>v\<close>; \<open>stringify\<close> is
  \<^verbatim>\<open>JSON.stringify\<close> on an array of objects; \<open>decodedDuration\<close> is the duration in
  seconds of the audio buffer decoded from a base64 frame.
\<close>

record host =
  getTime :: "jsval option \<Rightarrow> int option"
  toLocaleString :: "jsval option \<Rightarrow> string"
  toStr :: "jsval option \<Rightarrow> string"
  stringify :: "jsobj list \<Rightarrow> string"
  decodedDuration :: "string \<Rightarrow> real"

section \<open>Array helpers\<close>

primrec findIndex :: "('a \<Rightarrow> bool) \<Rightarrow> 'a list \<Rightarrow> nat option" where
  "findIndex P [] = None"
| "findIndex P (x # xs) =
     (if P x then Some 0 else map_option Suc (findIndex P xs))"

text \<open>
  \<^verbatim>\<open>Array.prototype.sort(cmp)\<close> is a stable sort. \<open>gt a b\<close> stands for
  \<^verbatim>\<open>cmp(a, b) > 0\<close> (a \<^verbatim>\<open>NaN\<close> result counts as \<open>0\<close>); the sort is written as a
  stable insertion sort. When every date is valid the comparator is a consistent order and
  every stable sort returns this list. With an invalid date the comparator returns
  \<^verbatim>\<open>NaN\<close> for some pairs, ECMAScript leaves the order to the engine, and the list
  below is only one of the orders it may return. The general theorems use only that the
  result has the same elements; the evaluated examples have valid dates.
\<close>

primrec insert_by :: "('a \<Rightarrow> 'a \<Rightarrow> bool) \<Rightarrow> 'a \<Rightarrow> 'a list \<Rightarrow> 'a list" where
  "insert_by gt x [] = [x]"
| "insert_by gt x (y # ys) = (if gt x y then y # insert_by gt x ys else x # y # ys)"

definition sort_by :: "('a \<Rightarrow> 'a \<Rightarrow> bool) \<Rightarrow> 'a list \<Rightarrow> 'a list" where
  "sort_by gt xs = foldr (insert_by gt) xs []"

definition diff_positive :: "int option \<Rightarrow> int option \<Rightarrow> bool" where
  \<comment> \<open>\<^verbatim>\<open>x - y > 0\<close> on time values, false when either is \<^verbatim>\<open>NaN\<close>\<close>
  "diff_positive x y = (case (x, y) of (Some a, Some b) \<Rightarrow> a - b > 0 | _ \<Rightarrow> False)"

section \<open>The storage service (services/storage)\<close>

text \<open>
  The state of the browser that the storage service reads and writes: the arrays kept under
  the four localStorage keys (as \<^verbatim>\<open>safeParse\<close> returns them, \<open>[]\<close> or \<open>None\<close> for a
  missing key), the error, if any, that \<^verbatim>\<open>localStorage.setItem\<close> throws for a key (a
  full quota, a blocked storage), the identifiers \<^verbatim>\<open>crypto.randomUUID()\<close> will hand
  out, and the clock read by \<^verbatim>\<open>Date.now()\<close>. The awaited \<^verbatim>\<open>delay(ms)\<close> calls only
  let time pass; every operation is run as one atomic step.
\<close>

record world =
  ls_users :: "jsobj list"
  ls_expenses :: "jsobj list"
  ls_appointments :: "jsobj list"
  ls_current_user :: "jsobj option"
  setItem_error :: "string \<Rightarrow> string option"
  uuid_supply :: "nat \<Rightarrow> string"
  uuid_count :: nat
  date_now :: int

definition USERS_KEY :: string where "USERS_KEY = ''expense_app_users''"
definition EXPENSES_KEY :: string where "EXPENSES_KEY = ''expense_app_expenses''"
definition APPOINTMENTS_KEY :: string where "APPOINTMENTS_KEY = ''expense_app_appointments''"
definition CURRENT_USER_KEY :: string where "CURRENT_USER_KEY = ''expense_app_current_user''"

text \<open>A thrown \<^verbatim>\<open>Error\<close> is \<open>Inl\<close> of its message; \<open>bind_exn\<close> sequences two steps.\<close>

type_synonym 'a outcome = "(string + 'a) \<times> world"

definition bind_exn :: "'a outcome \<Rightarrow> ('a \<Rightarrow> world \<Rightarrow> 'b outcome) \<Rightarrow> 'b outcome" where
  "bind_exn r f = (case r of (Inl e, w) \<Rightarrow> (Inl e, w) | (Inr v, w) \<Rightarrow> f v w)"

definition randomUUID :: "world \<Rightarrow> string \<times> world" where
  "randomUUID w = (uuid_supply w (uuid_count w), w\<lparr>uuid_count := Suc (uuid_count w)\<rparr>)"

definition setCurrentUser :: "jsobj \<Rightarrow> world \<Rightarrow> unit outcome" where
  "setCurrentUser user w =
     (case setItem_error w CURRENT_USER_KEY of
        Some m \<Rightarrow> (Inl m, w)
      | None \<Rightarrow> (Inr (), w\<lparr>ls_current_user := Some user\<rparr>))"

definition saveUsers :: "jsobj list \<Rightarrow> world \<Rightarrow> unit outcome" where
  \<comment> \<open>\<^verbatim>\<open>localStorage.setItem(USERS_KEY, JSON.stringify(users))\<close>\<close>
  "saveUsers users w =
     (case setItem_error w USERS_KEY of
        Some m \<Rightarrow> (Inl m, w)
      | None \<Rightarrow> (Inr (), w\<lparr>ls_users := users\<rparr>))"

definition register :: "jsobj \<Rightarrow> world \<Rightarrow> jsobj outcome" where
  "register user w =
     (let users = ls_users w in
      if find (\<lambda>u. u ''email'' = user ''email'') users \<noteq> None
      then (Inl ''User already exists'', w)
      else
        let newUser = user(''budget'' := js_or (user ''budget'') (Some (JNum 5000))) in
        bind_exn (saveUsers (users @ [newUser]) w) (\<lambda>_ w1.
        bind_exn (setCurrentUser newUser w1) (\<lambda>_ w2.
        (Inr newUser, w2))))"

definition updateUser :: "jsobj \<Rightarrow> world \<Rightarrow> jsobj outcome" where
  "updateUser user w =
     (let users = ls_users w in
      case findIndex (\<lambda>u. u ''email'' = user ''email'') users of
        Some index \<Rightarrow>
          bind_exn (saveUsers (users[index := user]) w) (\<lambda>_ w1.
          bind_exn (setCurrentUser user w1) (\<lambda>_ w2.
          (Inr user, w2)))
      | None \<Rightarrow> (Inr user, w))"

definition saveExpenses :: "jsobj list \<Rightarrow> world \<Rightarrow> unit outcome" where
  "saveExpenses expenses w =
     (case setItem_error w EXPENSES_KEY of
        Some m \<Rightarrow> (Inl m, w)
      | None \<Rightarrow> (Inr (), w\<lparr>ls_expenses := expenses\<rparr>))"

definition addExpense :: "jsobj \<Rightarrow> world \<Rightarrow> jsobj outcome" where
  "addExpense expense w =
     (let (uuid, w1) = randomUUID w;
          newExpense = expense(''id'' \<mapsto> JStr uuid, ''createdAt'' \<mapsto> JNum (of_int (date_now w1)))
      in bind_exn (saveExpenses (ls_expenses w1 @ [newExpense]) w1) (\<lambda>_ w2.
         (Inr newExpense, w2)))"

definition updateExpense :: "jsobj \<Rightarrow> world \<Rightarrow> unit outcome" where
  "updateExpense expense w =
     (let all = ls_expenses w in
      case findIndex (\<lambda>e. e ''id'' = expense ''id'') all of
        Some index \<Rightarrow> saveExpenses (all[index := expense]) w
      | None \<Rightarrow> (Inr (), w))"

definition getExpenses :: "host \<Rightarrow> jsval option \<Rightarrow> world \<Rightarrow> jsobj list" where
  "getExpenses h userId w =
     sort_by (\<lambda>a b. diff_positive (getTime h (b ''date'')) (getTime h (a ''date'')))
       (filter (\<lambda>e. e ''userId'' = userId) (ls_expenses w))"

definition saveAppointments :: "jsobj list \<Rightarrow> world \<Rightarrow> unit outcome" where
  "saveAppointments appts w =
     (case setItem_error w APPOINTMENTS_KEY of
        Some m \<Rightarrow> (Inl m, w)
      | None \<Rightarrow> (Inr (), w\<lparr>ls_appointments := appts\<rparr>))"

definition addAppointment :: "jsobj \<Rightarrow> world \<Rightarrow> jsobj outcome" where
  "addAppointment appt w =
     (let (uuid, w1) = randomUUID w;
          newAppt = appt(''id'' \<mapsto> JStr uuid, ''status'' \<mapsto> JStr ''scheduled'',
                         ''createdAt'' \<mapsto> JNum (of_int (date_now w1)),
                         ''notified'' \<mapsto> JBool False)
      in bind_exn (saveAppointments (ls_appointments w1 @ [newAppt]) w1) (\<lambda>_ w2.
         (Inr newAppt, w2)))"

definition getAppointments :: "host \<Rightarrow> jsval option \<Rightarrow> world \<Rightarrow> jsobj list" where
  "getAppointments h userId w =
     sort_by (\<lambda>a b. diff_positive (getTime h (a ''date'')) (getTime h (b ''date'')))
       (filter (\<lambda>a. a ''userId'' = userId) (ls_appointments w))"

definition updateAppointment :: "jsobj \<Rightarrow> world \<Rightarrow> unit outcome" where
  "updateAppointment appt w =
     (let all = ls_appointments w in
      case findIndex (\<lambda>a. a ''id'' = appt ''id'') all of
        Some index \<Rightarrow> saveAppointments (all[index := appt]) w
      | None \<Rightarrow> (Inr (), w))"

definition deleteAppointment :: "jsval option \<Rightarrow> world \<Rightarrow> unit outcome" where
  "deleteAppointment i w =
     saveAppointments (filter (\<lambda>a. a ''id'' \<noteq> i) (ls_appointments w)) w"

section \<open>The notification scheduler (App, checkAppointments)\<close>

text \<open>
  The test the \<^verbatim>\<open>forEach\<close> callback makes on one appointment before it alerts:
  \<^verbatim>\<open>appt.status === 'scheduled' && !appt.notified\<close>, then
  \<^verbatim>\<open>diff <= 60000 && diff > -60000 * 60\<close> with
  \<^verbatim>\<open>diff = apptTime.getTime() - now.getTime()\<close>. With an invalid date \<open>diff\<close> is
  \<^verbatim>\<open>NaN\<close> and both comparisons are false.
\<close>

definition alertDue :: "host \<Rightarrow> int \<Rightarrow> jsobj \<Rightarrow> bool" where
  "alertDue h now appt =
     (if appt ''status'' = Some (JStr ''scheduled'') \<and> \<not> truthy (appt ''notified'')
      then (case getTime h (appt ''date'') of
              None \<Rightarrow> False
            | Some apptTime \<Rightarrow>
                (let diff = apptTime - now in diff \<le> 60000 \<and> diff > - 60000 * 60))
      else False)"

text \<open>
  One run of \<^verbatim>\<open>checkAppointments\<close> for the signed-in \<open>user\<close> at time \<open>now\<close>. The
  callbacks run in order up to their \<^verbatim>\<open>await\<close>: each due appointment is passed to
  \<^verbatim>\<open>setActiveAlert\<close> (the first component lists these calls in order). The awaited
  \<^verbatim>\<open>updateAppointment({...appt, notified: true})\<close> calls then complete in the same
  order; a write that throws rejects a promise nobody awaits and leaves the store as it was.
\<close>

definition markNotified :: "jsobj \<Rightarrow> world \<Rightarrow> world" where
  "markNotified appt w = snd (updateAppointment (appt(''notified'' \<mapsto> JBool True)) w)"

definition checkAppointments :: "host \<Rightarrow> jsobj \<Rightarrow> int \<Rightarrow> world \<Rightarrow> jsobj list \<times> world" where
  "checkAppointments h user now w =
     (let appts = getAppointments h (user ''email'') w;
          alerted = filter (alertDue h now) appts
      in (alerted, fold markNotified alerted w))"

text \<open>
  \<^verbatim>\<open>App\<close> keeps one alert to display, \<^verbatim>\<open>useState<Appointment | null>(null)\<close>;
  the modal shows it until \<^verbatim>\<open>dismissAlert\<close>. Every \<^verbatim>\<open>setActiveAlert(appt)\<close> of a
  check runs in the same pass of \<^verbatim>\<open>forEach\<close>, before the first awaited write, and
  each call replaces the value: what is displayed after the check is the last one.
\<close>

record app =
  activeAlert :: "jsobj option"
  appStore :: world

definition runCheck :: "host \<Rightarrow> jsobj \<Rightarrow> int \<Rightarrow> app \<Rightarrow> app" where
  "runCheck h user now a =
     (let (alerted, w') = checkAppointments h user now (appStore a)
      in \<lparr>activeAlert = fold (\<lambda>appt shown. Some appt) alerted (activeAlert a),
          appStore = w'\<rparr>)"

definition dismissAlert :: "app \<Rightarrow> app" where
  "dismissAlert a = a\<lparr>activeAlert := None\<rparr>"

text \<open>
  A sequence of checks, each for a signed-in user at a time: the store before the first
  check and after each one, and the alerts each check raised.
\<close>

fun check_states :: "host \<Rightarrow> (jsobj \<times> int) list \<Rightarrow> world \<Rightarrow> world list" where
  "check_states h [] w = [w]"
| "check_states h ((user, now) # cs) w =
     w # check_states h cs (snd (checkAppointments h user now w))"

fun check_alerts :: "host \<Rightarrow> (jsobj \<times> int) list \<Rightarrow> world \<Rightarrow> jsobj list list" where
  "check_alerts h [] w = []"
| "check_alerts h ((user, now) # cs) w =
     fst (checkAppointments h user now w)
       # check_alerts h cs (snd (checkAppointments h user now w))"

definition notifiedIn :: "world \<Rightarrow> jsval option \<Rightarrow> bool" where
  \<comment> \<open>the stored appointment with this id has its \<open>notified\<close> flag set\<close>
  "notifiedIn w i = list_ex (\<lambda>a. a ''id'' = i \<and> truthy (a ''notified'')) (ls_appointments w)"

fun rises :: "bool list \<Rightarrow> nat" where
  \<comment> \<open>how often a sequence of flags goes from false to true\<close>
  "rises (a # b # bs) = (if \<not> a \<and> b then 1 else 0) + rises (b # bs)"
| "rises _ = 0"

section \<open>The tool bridge (services/tools, executeExpenseTool)\<close>

text \<open>
  The object \<^verbatim>\<open>executeExpenseTool\<close> returns: \<^verbatim>\<open>{error}\<close>, \<^verbatim>\<open>{result}\<close>, or
  \<^verbatim>\<open>{result, expense}\<close>, \<^verbatim>\<open>{result, user}\<close>, \<^verbatim>\<open>{result, appointment}\<close>.
\<close>

datatype tool_result =
    ToolError string
  | ToolResult string
  | ToolExpense string jsobj
  | ToolUser string jsobj
  | ToolAppointment string jsobj

text \<open>The names declared in \<^verbatim>\<open>expenseTools\<close>.\<close>

definition toolNames :: "string list" where
  "toolNames = [''addExpense'', ''updateExpense'', ''setBudget'', ''getExpenses'',
     ''requestManualEntry'', ''addAppointment'', ''getAppointments'',
     ''updateAppointmentStatus'', ''deleteAppointment'']"

text \<open>The body of the \<^verbatim>\<open>try\<close> block: a persistence call that throws ends it with \<open>Inl\<close>.\<close>

definition toolBody :: "host \<Rightarrow> string \<Rightarrow> jsobj \<Rightarrow> jsobj \<Rightarrow> world \<Rightarrow> tool_result outcome" where
  "toolBody h name args user w =
     (if name = ''addExpense'' then
        bind_exn
          (addExpense (Map.empty(''userId'' := user ''email'', ''amount'' := args ''amount'',
                                 ''category'' := args ''category'',
                                 ''description'' := args ''description'',
                                 ''date'' := args ''date'')) w)
          (\<lambda>expense w1. (Inr (ToolExpense ''Expense added successfully'' expense), w1))
      else if name = ''updateExpense'' then
        (let all = getExpenses h (user ''email'') w in
         case find (\<lambda>e. e ''id'' = args ''id'') all of
           None \<Rightarrow> (Inr (ToolError ''Expense not found''), w)
         | Some existing \<Rightarrow>
             bind_exn (updateExpense (existing ++ args) w)
               (\<lambda>_ w1. (Inr (ToolResult ''Expense updated''), w1)))
      else if name = ''setBudget'' then
        (let updatedUser = user(''budget'' := args ''amount'') in
         bind_exn (updateUser updatedUser w)
           (\<lambda>_ w1. (Inr (ToolUser (''Budget set to '' @ toStr h (args ''amount'') @ '' DH'')
                             updatedUser), w1)))
      else if name = ''getExpenses'' then
        (let expenses = getExpenses h (user ''email'') w in
         (Inr (ToolResult (stringify h (take 10 expenses))), w))
      else if name = ''requestManualEntry'' then
        (Inr (ToolResult ''Manual form requested''), w)
      else if name = ''addAppointment'' then
        bind_exn
          (addAppointment (Map.empty(''userId'' := user ''email'', ''title'' := args ''title'',
                                     ''date'' := args ''date'',
                                     ''type'' := js_or (args ''type'') (Some (JStr ''reminder'')))) w)
          (\<lambda>appt w1.
             (Inr (ToolAppointment
                     (''Appointment scheduled: '' @ toStr h (args ''title'') @ '' at ''
                        @ toLocaleString h (args ''date'')) appt), w1))
      else if name = ''getAppointments'' then
        (let appts = getAppointments h (user ''email'') w;
             summary = map (\<lambda>a. Map.empty(''id'' := a ''id'', ''title'' := a ''title'',
                                           ''time'' \<mapsto> JStr (toLocaleString h (a ''date'')),
                                           ''status'' := a ''status'')) appts
         in (Inr (ToolResult (stringify h summary)), w))
      else if name = ''updateAppointmentStatus'' then
        (let all = getAppointments h (user ''email'') w in
         case find (\<lambda>a. a ''id'' = args ''id'') all of
           None \<Rightarrow> (Inr (ToolError ''Appointment not found''), w)
         | Some existing \<Rightarrow>
             (let updated = existing(''status'' := args ''status'') in
              bind_exn (updateAppointment updated w)
                (\<lambda>_ w1. (Inr (ToolResult (''Appointment marked as '' @ toStr h (args ''status''))),
                          w1))))
      else if name = ''deleteAppointment'' then
        bind_exn (deleteAppointment (args ''id'') w)
          (\<lambda>_ w1. (Inr (ToolResult ''Appointment deleted''), w1))
      else (Inr (ToolError ''Unknown tool''), w))"

text \<open>
  \<^verbatim>\<open>try { ... } catch (err) { return { error: err.message } }\<close> around the body. The
  outcome type still has room for a throw, so that "never throws" is a statement to prove.
\<close>

definition executeExpenseTool ::
  "host \<Rightarrow> string \<Rightarrow> jsobj \<Rightarrow> jsobj \<Rightarrow> world \<Rightarrow> tool_result outcome" where
  "executeExpenseTool h name args user w =
     (case toolBody h name args user w of
        (Inl message, w1) \<Rightarrow> (Inr (ToolError message), w1)
      | (Inr r, w1) \<Rightarrow> (Inr r, w1))"

section \<open>The chat dispatcher (components/ChatBot, handleSend)\<close>

text \<open>
  A function call of the model's reply (it carries an argument object), the reply itself,
  and what is sent: a text, or a list of parts (recorded audio, text, function responses).
\<close>

record fcall =
  fc_id :: "string option"
  fc_name :: string
  fc_args :: jsobj

record response =
  resp_text :: "string option"
  resp_functionCalls :: "fcall list option"

datatype fn_result = ResultText string | ResultTool tool_result

record fn_response =
  fr_id :: "string option"
  fr_name :: string
  fr_response :: fn_result

datatype part = InlineData string string | TextPart string | FunctionResponse fn_response

datatype payload = Message string | MessageParts "part list"

text \<open>
  The model service is any deterministic function of the calls made so far and the payload
  now sent; it answers or rejects with an error message.
\<close>

type_synonym service = "payload list \<Rightarrow> payload \<Rightarrow> string + response"

datatype role = User | Model

record message =
  msg_role :: role
  msg_text :: "string option"
  msg_audio :: "string option"
  msg_duration :: "real option"
  msg_isForm :: bool
  msg_prefilledDescription :: "jsval option"
  msg_expenseData :: "jsobj option"
  msg_appointmentData :: "jsobj option"
  msg_isError :: bool

record msg_extra =
  expenseData :: "jsobj option"
  appointmentData :: "jsobj option"

text \<open>
  A recorded \<^verbatim>\<open>Blob\<close>: its size in bytes, its MIME type, and the base64 string that
  \<^verbatim>\<open>blobToBase64\<close> (utils/audioUtils) makes of it.
\<close>

record blob =
  blob_size :: nat
  blob_type :: string
  blob_base64 :: string

text \<open>
  The component's state as \<^verbatim>\<open>handleSend\<close> uses it: the message list, whether
  \<^verbatim>\<open>chatSessionRef.current\<close> is set, the store, and three logs of what went out:
  every \<^verbatim>\<open>sendMessage\<close> call, every delay awaited, every text handed to
  \<^verbatim>\<open>generateAndPlayAudio\<close>.
\<close>

record chat =
  messages :: "message list"
  chatSession :: bool
  isThinking :: bool
  processingText :: string
  sendCalls :: "payload list"
  delays :: "nat list"
  spoken :: "string list"
  store :: world

text \<open>
  A value thrown inside \<^verbatim>\<open>handleSend\<close> is \<open>Some m\<close> for an \<^verbatim>\<open>Error\<close> with message
  \<open>m\<close>, \<open>None\<close> for \<^verbatim>\<open>undefined\<close> (the initial \<^verbatim>\<open>lastError\<close>).
\<close>

type_synonym 'a attempt = "(string option + 'a) \<times> chat"

function sendLoop ::
  "service \<Rightarrow> payload \<Rightarrow> nat \<Rightarrow> string option \<Rightarrow> chat \<Rightarrow> response attempt" where
  "sendLoop svc p i lastError c =
     (if i < 3 then
        (if \<not> chatSession c then
           sendLoop svc p (i + 1) (Some ''Chat session lost'')
             (c\<lparr>delays := delays c @ [1000 * (i + 1)]\<rparr>)
         else
           (case svc (sendCalls c) p of
              Inr r \<Rightarrow> (Inr r, c\<lparr>sendCalls := sendCalls c @ [p]\<rparr>)
            | Inl e \<Rightarrow>
                sendLoop svc p (i + 1) (Some e)
                  (c\<lparr>sendCalls := sendCalls c @ [p],
                     delays := delays c @ [1000 * (i + 1)]\<rparr>)))
      else (Inl lastError, c))"
  by pat_completeness auto
termination
  by (relation "measure (\<lambda>(svc, p, i, lastError, c). 3 - i)") auto

declare sendLoop.simps [simp del]

definition sendMessageWithRetry :: "service \<Rightarrow> payload \<Rightarrow> chat \<Rightarrow> response attempt" where
  "sendMessageWithRetry svc p c = sendLoop svc p 0 None c"

definition formMessage :: "jsval option \<Rightarrow> message" where
  "formMessage d =
     \<lparr>msg_role = Model, msg_text = None, msg_audio = None, msg_duration = None,
      msg_isForm = True, msg_prefilledDescription = d, msg_expenseData = None,
      msg_appointmentData = None, msg_isError = False\<rparr>"

definition modelMessage :: "string \<Rightarrow> msg_extra \<Rightarrow> message" where
  \<comment> \<open>\<^verbatim>\<open>{ role: 'model', text, ...msgExtra }\<close>\<close>
  "modelMessage t ex =
     \<lparr>msg_role = Model, msg_text = Some t, msg_audio = None, msg_duration = None,
      msg_isForm = False, msg_prefilledDescription = None, msg_expenseData = expenseData ex,
      msg_appointmentData = appointmentData ex, msg_isError = False\<rparr>"

definition errorMessage :: "string \<Rightarrow> message" where
  "errorMessage m =
     \<lparr>msg_role = Model, msg_text = Some (''Mochkil: '' @ m), msg_audio = None,
      msg_duration = None, msg_isForm = False, msg_prefilledDescription = None,
      msg_expenseData = None, msg_appointmentData = None, msg_isError = True\<rparr>"

definition noExtra :: msg_extra where
  "noExtra = \<lparr>expenseData = None, appointmentData = None\<rparr>"

definition extraAfter :: "string \<Rightarrow> tool_result \<Rightarrow> msg_extra \<Rightarrow> msg_extra" where
  \<comment> \<open>the two \<^verbatim>\<open>if\<close>s that replace \<^verbatim>\<open>msgExtra\<close> after a tool call\<close>
  "extraAfter name toolResult ex =
     (let ex1 = (case toolResult of
                   ToolExpense _ e \<Rightarrow>
                     (if name = ''addExpense''
                      then \<lparr>expenseData = Some e, appointmentData = None\<rparr> else ex)
                 | _ \<Rightarrow> ex)
      in (case toolResult of
            ToolAppointment _ a \<Rightarrow>
              (if name = ''addAppointment''
               then \<lparr>expenseData = None, appointmentData = Some a\<rparr> else ex1)
          | _ \<Rightarrow> ex1))"

text \<open>The \<^verbatim>\<open>for (const fc of functionCalls)\<close> loop.\<close>

fun dispatchCalls ::
  "host \<Rightarrow> jsobj \<Rightarrow> fcall list \<Rightarrow> msg_extra \<Rightarrow> part list \<Rightarrow> chat
     \<Rightarrow> (msg_extra \<times> part list) attempt" where
  "dispatchCalls h user [] ex frs c = (Inr (ex, frs), c)"
| "dispatchCalls h user (fc # fcs) ex frs c =
     (if fc_name fc = ''requestManualEntry'' then
        dispatchCalls h user fcs ex
          (frs @ [FunctionResponse \<lparr>fr_id = fc_id fc, fr_name = fc_name fc,
                                    fr_response = ResultText ''Form shown''\<rparr>])
          (c\<lparr>messages := messages c @ [formMessage (fc_args fc ''prefilledDescription'')]\<rparr>)
      else
        (case executeExpenseTool h (fc_name fc) (fc_args fc) user (store c) of
           (Inl e, w1) \<Rightarrow> (Inl (Some e), c\<lparr>store := w1\<rparr>)
         | (Inr toolResult, w1) \<Rightarrow>
             dispatchCalls h user fcs (extraAfter (fc_name fc) toolResult ex)
               (frs @ [FunctionResponse \<lparr>fr_id = fc_id fc, fr_name = fc_name fc,
                                         fr_response = ResultTool toolResult\<rparr>])
               (c\<lparr>store := w1\<rparr>)))"

definition speak :: "bool \<Rightarrow> string \<Rightarrow> chat \<Rightarrow> chat" where
  \<comment> \<open>\<^verbatim>\<open>if (shouldRespondWithAudio) generateAndPlayAudio(text)\<close>, not awaited\<close>
  "speak shouldRespondWithAudio t c =
     (if shouldRespondWithAudio then c\<lparr>spoken := spoken c @ [t]\<rparr> else c)"

definition showReply :: "string \<Rightarrow> msg_extra \<Rightarrow> bool \<Rightarrow> chat \<Rightarrow> chat" where
  "showReply responseText ex shouldRespondWithAudio c =
     (if responseText \<noteq> [] then
        speak shouldRespondWithAudio responseText
          (c\<lparr>messages := messages c @ [modelMessage responseText ex]\<rparr>)
      else if expenseData ex \<noteq> None \<or> appointmentData ex \<noteq> None then
        speak shouldRespondWithAudio ''Safi tqiyed.''
          (c\<lparr>messages := messages c @ [modelMessage ''Safi tqiyed.'' ex]\<rparr>)
      else c)"

definition textOf :: "response \<Rightarrow> string" where
  \<comment> \<open>\<^verbatim>\<open>result.text || ''\<close>\<close>
  "textOf r = (case resp_text r of None \<Rightarrow> [] | Some t \<Rightarrow> t)"

definition resolveReply ::
  "host \<Rightarrow> service \<Rightarrow> jsobj \<Rightarrow> bool \<Rightarrow> response \<Rightarrow> chat \<Rightarrow> unit attempt" where
  \<comment> \<open>the \<^verbatim>\<open>try\<close> block from \<^verbatim>\<open>let responseText = result.text || ''\<close> on\<close>
  "resolveReply h svc user shouldRespondWithAudio result c =
     (case resp_functionCalls result of
        Some (fc # fcs) \<Rightarrow>
          (case dispatchCalls h user (fc # fcs) noExtra [] c of
             (Inl e, c1) \<Rightarrow> (Inl e, c1)
           | (Inr (ex, functionResponses), c1) \<Rightarrow>
               (case sendMessageWithRetry svc (MessageParts functionResponses) c1 of
                  (Inl e, c2) \<Rightarrow> (Inl e, c2)
                | (Inr toolResponseResult, c2) \<Rightarrow>
                    (Inr (), showReply (textOf toolResponseResult) ex shouldRespondWithAudio c2)))
      | _ \<Rightarrow> (Inr (), showReply (textOf result) noExtra shouldRespondWithAudio c))"

definition firstSend :: "service \<Rightarrow> string \<Rightarrow> blob option \<Rightarrow> chat \<Rightarrow> response attempt" where
  "firstSend svc t audioBlob c =
     (case audioBlob of
        Some b \<Rightarrow>
          (if blob_size b < 100 then (Inl (Some ''Tasjil qsir. 3awd.''), c)
           else
             (let audioPart =
                    InlineData (if blob_type b \<noteq> [] then blob_type b else ''audio/webm'')
                      (blob_base64 b)
              in sendMessageWithRetry svc
                   (MessageParts (if t \<noteq> [] then [audioPart, TextPart t] else [audioPart])) c))
      | None \<Rightarrow> sendMessageWithRetry svc (Message t) c)"

definition userMessage :: "string \<Rightarrow> blob option \<Rightarrow> real option \<Rightarrow> message" where
  "userMessage t audioBlob duration =
     \<lparr>msg_role = User,
      msg_text = (case audioBlob of None \<Rightarrow> Some t | Some b \<Rightarrow> Some []),
      msg_audio = map_option blob_base64 audioBlob, msg_duration = duration,
      msg_isForm = False, msg_prefilledDescription = None, msg_expenseData = None,
      msg_appointmentData = None, msg_isError = False\<rparr>"

definition handleSend ::
  "host \<Rightarrow> service \<Rightarrow> jsobj \<Rightarrow> string \<Rightarrow> blob option \<Rightarrow> real option \<Rightarrow> chat \<Rightarrow> chat" where
  "handleSend h svc user t audioBlob duration c =
     (if (t = [] \<and> audioBlob = None) \<or> \<not> chatSession c then c
      else
        (let c1 = c\<lparr>messages := messages c @ [userMessage t audioBlob duration],
                    isThinking := True,
                    processingText := (if audioBlob \<noteq> None then ''Ki sma3...'' else ''Ki fakar...'')\<rparr>;
             shouldRespondWithAudio = (audioBlob \<noteq> None);
             tried = (case firstSend svc t audioBlob c1 of
                        (Inl e, c2) \<Rightarrow> (Inl e, c2)
                      | (Inr result, c2) \<Rightarrow>
                          resolveReply h svc user shouldRespondWithAudio result c2);
             caught = (case tried of
                         (Inl (Some m), c3) \<Rightarrow> c3\<lparr>messages := messages c3 @ [errorMessage m]\<rparr>
                       | (_, c3) \<Rightarrow> c3)
         in caught\<lparr>isThinking := False, processingText := []\<rparr>))"

section \<open>The live voice session (components/LiveAssistant)\<close>

text \<open>
  A message of the live channel: function calls, a base64 audio frame, the interruption
  flag. The component's state: the React state \<open>isConnected\<close> and \<open>isMuted\<close>; the refs
  \<open>closing\<close>, \<open>nextStartTime\<close> and \<open>sources\<close> (buffer sources are numbered as they are
  created); and what has gone out: the capture buffers whose PCM blob was passed to
  \<^verbatim>\<open>sendRealtimeInput\<close>, the tool responses, the \<^verbatim>\<open>start(t)\<close> and \<^verbatim>\<open>stop()\<close> calls.

  \<^verbatim>\<open>connect\<close> is a closure of the render in which it was made and reads that render's
  constant \<^verbatim>\<open>isMuted\<close>. The effect \<^verbatim>\<open>useEffect(() => { connect(); ... }, [])\<close> has no
  dependencies: it runs once, after the first render, so the callbacks it registers
  (\<^verbatim>\<open>onopen\<close>, and through it \<^verbatim>\<open>onaudioprocess\<close>) keep reading that render's
  \<^verbatim>\<open>isMuted\<close>. \<open>scope_isMuted\<close> is that captured constant, \<open>None\<close> as long as no
  channel was requested. Acquiring the microphone may fail (\<open>micError\<close>); the audio
  contexts, the graph nodes and the PCM encoding of \<^verbatim>\<open>createPcmBlob\<close> are left out.
\<close>

record live_msg =
  lm_toolCall :: "fcall list option"
  lm_audio :: "string option"
  lm_interrupted :: bool

record live =
  isConnected :: bool
  isMuted :: bool
  closing :: bool
  scope_isMuted :: "bool option"
  processorOn :: bool
  statusMessage :: string
  nextStartTime :: real
  sources :: "nat list"
  sourceCount :: nat
  sentMedia :: "real list list"
  toolResponses :: "fn_response list"
  started :: "(nat \<times> real) list"
  stopped :: "nat list"
  liveStore :: world

definition initialLive :: "world \<Rightarrow> live" where
  \<comment> \<open>the first render: \<^verbatim>\<open>useState(false)\<close>, \<^verbatim>\<open>useRef(0)\<close>, \<^verbatim>\<open>new Set()\<close>\<close>
  "initialLive w =
     \<lparr>isConnected = False, isMuted = False, closing = False, scope_isMuted = None,
      processorOn = False, statusMessage = ''Initializing...'', nextStartTime = 0, sources = [], sourceCount = 0, sentMedia = [],
      toolResponses = [], started = [], stopped = [], liveStore = w\<rparr>"

definition connect :: "string option \<Rightarrow> live \<Rightarrow> live" where
  \<comment> \<open>the mount effect calls the \<^verbatim>\<open>connect\<close> of the render it belongs to\<close>
  "connect micError s =
     (case micError of
        Some m \<Rightarrow> s\<lparr>statusMessage := ''Error: '' @ m\<rparr>
      | None \<Rightarrow> s\<lparr>statusMessage := ''Connecting to Gemini...'',
                   scope_isMuted := Some (isMuted s)\<rparr>)"

definition onopen :: "live \<Rightarrow> live" where
  \<comment> \<open>sets the state, then creates the processor and assigns its \<^verbatim>\<open>onaudioprocess\<close>\<close>
  "onopen s =
     s\<lparr>isConnected := True, statusMessage := ''Knasme3 (Listening)...'', processorOn := True\<rparr>"

definition onclose :: "live \<Rightarrow> live" where
  "onclose s = s\<lparr>isConnected := False\<rparr>"

definition onerror :: "live \<Rightarrow> live" where
  "onerror s = s\<lparr>statusMessage := ''Error. Retrying...''\<rparr>"

definition toggleMute :: "live \<Rightarrow> live" where
  \<comment> \<open>\<^verbatim>\<open>onClick={() => setIsMuted(!isMuted)}\<close>: a state update and a new render\<close>
  "toggleMute s = s\<lparr>isMuted := \<not> isMuted s\<rparr>"

definition onaudioprocess :: "real list \<Rightarrow> live \<Rightarrow> live" where
  \<comment> \<open>\<^verbatim>\<open>if (isMuted || closingRef.current) return;\<close> then encode and send\<close>
  "onaudioprocess inputData s =
     (case scope_isMuted s of
        Some captured \<Rightarrow>
          (if \<not> processorOn s then s
           else if captured \<or> closing s then s
           else s\<lparr>sentMedia := sentMedia s @ [inputData]\<rparr>)
      | None \<Rightarrow> s)"

fun liveToolCalls :: "host \<Rightarrow> jsobj \<Rightarrow> fcall list \<Rightarrow> live \<Rightarrow> (string + unit) \<times> live" where
  "liveToolCalls h user [] s = (Inr (), s)"
| "liveToolCalls h user (fc # fcs) s =
     (case executeExpenseTool h (fc_name fc) (fc_args fc) user (liveStore s) of
        (Inl e, w1) \<Rightarrow> (Inl e, s\<lparr>liveStore := w1\<rparr>)
      | (Inr result, w1) \<Rightarrow>
          liveToolCalls h user fcs
            (s\<lparr>liveStore := w1,
               toolResponses := toolResponses s
                 @ [\<lparr>fr_id = fc_id fc, fr_name = fc_name fc, fr_response = ResultTool result\<rparr>]\<rparr>))"

definition scheduleAudio :: "host \<Rightarrow> real \<Rightarrow> string \<Rightarrow> live \<Rightarrow> live" where
  \<comment> \<open>the \<^verbatim>\<open>if (base64Audio)\<close> block; \<open>currentTime\<close> is \<^verbatim>\<open>outputCtx.currentTime\<close>\<close>
  "scheduleAudio h currentTime base64Audio s =
     (let startAt = max (nextStartTime s) currentTime;
          source = sourceCount s
      in s\<lparr>sourceCount := Suc source,
            started := started s @ [(source, startAt)],
            nextStartTime := startAt + decodedDuration h base64Audio,
            sources := sources s @ [source]\<rparr>)"

definition interrupt :: "live \<Rightarrow> live" where
  \<comment> \<open>the \<^verbatim>\<open>if (msg.serverContent?.interrupted)\<close> block\<close>
  "interrupt s = s\<lparr>stopped := stopped s @ sources s, sources := [], nextStartTime := 0\<rparr>"

definition onmessage :: "host \<Rightarrow> jsobj \<Rightarrow> real \<Rightarrow> live_msg \<Rightarrow> live \<Rightarrow> live" where
  "onmessage h user currentTime msg s =
     (if closing s then s
      else
        (case (case lm_toolCall msg of
                 Some fcs \<Rightarrow> liveToolCalls h user fcs s
               | None \<Rightarrow> (Inr (), s)) of
           (Inl e, s1) \<Rightarrow> s1
         | (Inr _, s1) \<Rightarrow>
             (let s2 = (case lm_audio msg of
                          Some base64Audio \<Rightarrow>
                            (if base64Audio \<noteq> [] then scheduleAudio h currentTime base64Audio s1
                             else s1)
                        | None \<Rightarrow> s1)
              in if lm_interrupted msg then interrupt s2 else s2)))"

definition onended :: "nat \<Rightarrow> live \<Rightarrow> live" where
  \<comment> \<open>the \<^verbatim>\<open>'ended'\<close> listener of a source\<close>
  "onended source s = s\<lparr>sources := removeAll source (sources s)\<rparr>"

definition cleanup :: "live \<Rightarrow> live" where
  \<comment> \<open>the effect's cleanup sets \<^verbatim>\<open>closingRef.current = true\<close>, then releases the devices\<close>
  "cleanup s = s\<lparr>closing := True\<rparr>"

section \<open>Auxiliary definitions and example inputs\<close>

text \<open>What a check does to one stored appointment, given the set it alerted.\<close>

definition setNotified :: "jsobj set \<Rightarrow> jsobj \<Rightarrow> jsobj" where
  "setNotified S a = (if a \<in> S then a(''notified'' \<mapsto> JBool True) else a)"

text \<open>
  Reading a list of function responses: the call id and name a response carries, whether
  it reports a record created by \<open>addExpense\<close> or \<open>addAppointment\<close>, whether
  \<^verbatim>\<open>msgExtra\<close> holds a card, and the form messages a list of calls adds.
\<close>

fun responseKey :: "part \<Rightarrow> (string option \<times> string) option" where
  "responseKey (FunctionResponse r) = Some (fr_id r, fr_name r)"
| "responseKey _ = None"

definition hasCard :: "msg_extra \<Rightarrow> bool" where
  "hasCard ex = (expenseData ex \<noteq> None \<or> appointmentData ex \<noteq> None)"

fun createdCard :: "part \<Rightarrow> bool" where
  "createdCard (FunctionResponse r) =
     (case fr_response r of
        ResultTool (ToolExpense m e) \<Rightarrow> fr_name r = ''addExpense''
      | ResultTool (ToolAppointment m a) \<Rightarrow> fr_name r = ''addAppointment''
      | _ \<Rightarrow> False)"
| "createdCard _ = False"

text \<open>
  What the dispatcher is expected to answer to a function call made on a given store
  (the acknowledgement \<open>Form shown\<close> for the manual-entry call, otherwise what the tool
  bridge returns; the bridge never throws, so the \<open>Inl\<close> case does not arise), the store
  each call of a list finds, and the message line of a function response.
\<close>

definition answerTo :: "host \<Rightarrow> jsobj \<Rightarrow> fcall \<Rightarrow> world \<Rightarrow> part" where
  "answerTo h user fc w =
     FunctionResponse
       \<lparr>fr_id = fc_id fc, fr_name = fc_name fc,
        fr_response =
          (if fc_name fc = ''requestManualEntry'' then ResultText ''Form shown''
           else (case fst (executeExpenseTool h (fc_name fc) (fc_args fc) user w) of
                   Inr toolResult \<Rightarrow> ResultTool toolResult
                 | Inl e \<Rightarrow> ResultTool (ToolError e)))\<rparr>"

fun storesBefore :: "host \<Rightarrow> jsobj \<Rightarrow> fcall list \<Rightarrow> world \<Rightarrow> world list" where
  "storesBefore h user [] w = []"
| "storesBefore h user (fc # fcs) w =
     w # storesBefore h user fcs
           (if fc_name fc = ''requestManualEntry'' then w
            else snd (executeExpenseTool h (fc_name fc) (fc_args fc) user w))"

fun resultLine :: "part \<Rightarrow> string" where
  "resultLine (FunctionResponse r) =
     (case fr_response r of
        ResultText t \<Rightarrow> t
      | ResultTool (ToolError m) \<Rightarrow> ''error: '' @ m
      | ResultTool (ToolResult m) \<Rightarrow> m
      | ResultTool (ToolExpense m e) \<Rightarrow> m
      | ResultTool (ToolUser m u) \<Rightarrow> m
      | ResultTool (ToolAppointment m a) \<Rightarrow> m)"
| "resultLine _ = ''not a function response''"

definition formsFor :: "fcall list \<Rightarrow> message list" where
  "formsFor fcs =
     map (\<lambda>fc. formMessage (fc_args fc ''prefilledDescription''))
       (filter (\<lambda>fc. fc_name fc = ''requestManualEntry'') fcs)"

text \<open>
  A host whose dates are millisecond numbers, an empty store that accepts every write, a
  user, and an agenda read at time \<open>10000000\<close>: one appointment 45 minutes overdue, one
  two hours overdue, one exactly one hour overdue.
\<close>

definition exampleWorld :: world where
  "exampleWorld =
     \<lparr>ls_users = [], ls_expenses = [], ls_appointments = [], ls_current_user = None,
      setItem_error = (\<lambda>k. None), uuid_supply = (\<lambda>n. replicate (Suc n) CHR ''u''),
      uuid_count = 0, date_now = 1700000000000\<rparr>"

definition exampleUser :: jsobj where
  "exampleUser = Map.empty(''email'' \<mapsto> JStr ''a@b.c'', ''name'' \<mapsto> JStr ''A'', ''budget'' \<mapsto> JNum 0)"

definition exampleHost :: host where
  "exampleHost =
     \<lparr>getTime = (\<lambda>v. case v of Some (JNum x) \<Rightarrow> Some \<lfloor>x\<rfloor> | _ \<Rightarrow> None),
      toLocaleString = (\<lambda>v. ''a date''),
      toStr = (\<lambda>v. case v of Some (JStr s) \<Rightarrow> s | _ \<Rightarrow> ''a value''),
      stringify = (\<lambda>xs. ''an array''),
      decodedDuration = (\<lambda>s. of_nat (length s))\<rparr>"

definition apptAt :: "string \<Rightarrow> real \<Rightarrow> jsobj" where
  "apptAt i t =
     Map.empty(''id'' \<mapsto> JStr i, ''userId'' \<mapsto> JStr ''a@b.c'', ''title'' \<mapsto> JStr ''dentist'',
               ''date'' \<mapsto> JNum t, ''status'' \<mapsto> JStr ''scheduled'', ''type'' \<mapsto> JStr ''reminder'',
               ''createdAt'' \<mapsto> JNum 0, ''notified'' \<mapsto> JBool False)"

definition exampleAgenda :: world where
  "exampleAgenda =
     exampleWorld\<lparr>ls_appointments :=
       [apptAt ''late45'' 7300000, apptAt ''late120'' 2800000, apptAt ''late60'' 6400000]\<rparr>"

text \<open>
  An agenda read at time \<open>10000000\<close> with two due appointments (45 minutes overdue, 30
  seconds ahead) and one exactly one hour overdue.
\<close>

definition busyAgenda :: world where
  "busyAgenda =
     exampleWorld\<lparr>ls_appointments :=
       [apptAt ''late45'' 7300000, apptAt ''soon'' 10030000, apptAt ''late60'' 6400000]\<rparr>"

text \<open>
  A store that rejects every write, a chat with a session and one registered user, a
  service that fails twice before it answers, and one that always fails.
\<close>

definition blockedWorld :: world where
  "blockedWorld = exampleWorld\<lparr>setItem_error := (\<lambda>k. Some ''QuotaExceededError'')\<rparr>"

definition exampleChat :: chat where
  "exampleChat =
     \<lparr>messages = [], chatSession = True, isThinking = False, processingText = [],
      sendCalls = [], delays = [], spoken = [],
      store = exampleWorld\<lparr>ls_users := [exampleUser]\<rparr>\<rparr>"

definition flakyService :: service where
  "flakyService history p =
     (if length history < 2 then Inl ''503 unavailable''
      else Inr \<lparr>resp_text = Some ''Salam'', resp_functionCalls = None\<rparr>)"

definition downService :: service where
  "downService history p = Inl (''down '' @ replicate (length history) CHR ''!'')"

text \<open>
  Two function calls, a reply carrying both, and a service that answers a first message
  with given calls and the tool responses with a given text.
\<close>

definition budgetCall :: fcall where
  "budgetCall = \<lparr>fc_id = Some ''call-2'', fc_name = ''setBudget'',
                  fc_args = Map.empty(''amount'' \<mapsto> JNum 3000)\<rparr>"

definition expenseCall :: fcall where
  "expenseCall = \<lparr>fc_id = Some ''call-1'', fc_name = ''addExpense'',
                   fc_args = Map.empty(''amount'' \<mapsto> JNum 50, ''category'' \<mapsto> JStr ''Food'',
                                       ''description'' \<mapsto> JStr ''tajine'',
                                       ''date'' \<mapsto> JStr ''2024-01-01'')\<rparr>"

definition scriptedService :: "fcall list \<Rightarrow> string option \<Rightarrow> service" where
  \<comment> \<open>answers a first message with the given calls, and the tool responses with the given text\<close>
  "scriptedService fcs followUp history p =
     (case p of
        MessageParts (FunctionResponse r # ps) \<Rightarrow>
          Inr \<lparr>resp_text = followUp, resp_functionCalls = None\<rparr>
      | _ \<Rightarrow> Inr \<lparr>resp_text = Some ''original reply'', resp_functionCalls = Some fcs\<rparr>)"

definition twoCallReply :: response where
  "twoCallReply = \<lparr>resp_text = Some ''original reply'',
                    resp_functionCalls = Some [expenseCall, budgetCall]\<rparr>"

text \<open>
  Two channel messages, and an open live session that received two ten-second frames at
  clock time 1 (the example host decodes a frame of \<open>n\<close> characters to \<open>n\<close> seconds).
\<close>

definition interruption :: live_msg where
  "interruption = \<lparr>lm_toolCall = None, lm_audio = None, lm_interrupted = True\<rparr>"

definition audioFrame :: "string \<Rightarrow> live_msg" where
  "audioFrame b = \<lparr>lm_toolCall = None, lm_audio = Some b, lm_interrupted = False\<rparr>"

definition playingSession :: live where
  "playingSession =
     onmessage exampleHost exampleUser 1 (audioFrame ''0123456789'')
       (onmessage exampleHost exampleUser 1 (audioFrame ''0123456789'')
          (onopen (connect None (initialLive exampleWorld))))"

section \<open>Properties of the storage service\<close>

lemma register_succeeds:
  assumes "find (\<lambda>u. u ''email'' = user ''email'') (ls_users w) = None"
    and "setItem_error w USERS_KEY = None"
    and "setItem_error w CURRENT_USER_KEY = None"
  shows "register user w =
           (Inr (user(''budget'' := js_or (user ''budget'') (Some (JNum 5000)))),
            w\<lparr>ls_users := ls_users w @ [user(''budget'' := js_or (user ''budget'') (Some (JNum 5000)))],
              ls_current_user := Some (user(''budget'' := js_or (user ''budget'') (Some (JNum 5000))))\<rparr>)"
  using assms
  by (simp add: register_def Let_def bind_exn_def saveUsers_def setCurrentUser_def)

text \<open>
  Claim C10. When the email is new and both writes succeed, \<open>register\<close> returns and
  persists the user it was given with only the budget possibly changed: the budget is 5000
  whenever the supplied one is absent or falsy (an explicit 0 stores 5000), and a positive
  supplied budget is stored unchanged.
\<close>

theorem register_budget_default:
  assumes "find (\<lambda>u. u ''email'' = user ''email'') (ls_users w) = None"
    and "setItem_error w USERS_KEY = None"
    and "setItem_error w CURRENT_USER_KEY = None"
  shows "\<exists>newUser w'.
           register user w = (Inr newUser, w') \<and>
           ls_users w' = ls_users w @ [newUser] \<and>
           ls_current_user w' = Some newUser \<and>
           (\<forall>k. k \<noteq> ''budget'' \<longrightarrow> newUser k = user k) \<and>
           (\<not> truthy (user ''budget'') \<longrightarrow> newUser ''budget'' = Some (JNum 5000)) \<and>
           (user ''budget'' = None \<longrightarrow> newUser ''budget'' = Some (JNum 5000)) \<and>
           (user ''budget'' = Some (JNum 0) \<longrightarrow> newUser ''budget'' = Some (JNum 5000)) \<and>
           (\<forall>b. user ''budget'' = Some (JNum b) \<and> 0 < b \<longrightarrow> newUser ''budget'' = Some (JNum b))"
proof -
  note eq = register_succeeds [of user w, OF assms(1) assms(2) assms(3)]
  show ?thesis
    unfolding eq by (auto simp: js_or_def)
qed

theorem register_budget_default_witness:
  "\<exists>newUser w'.
     register exampleUser exampleWorld = (Inr newUser, w') \<and>
     ls_users w' = [newUser] \<and> newUser ''budget'' = Some (JNum 5000)"
proof -
  have h1: "find (\<lambda>u. u ''email'' = exampleUser ''email'') (ls_users exampleWorld) = None"
    by (simp add: exampleWorld_def)
  have h2: "setItem_error exampleWorld USERS_KEY = None"
    by (simp add: exampleWorld_def)
  have h3: "setItem_error exampleWorld CURRENT_USER_KEY = None"
    by (simp add: exampleWorld_def)
  have h4: "exampleUser ''budget'' = Some (JNum 0)"
    by (simp add: exampleUser_def)
  have h5: "ls_users exampleWorld = []"
    by (simp add: exampleWorld_def)
  from register_budget_default [of exampleUser exampleWorld, OF h1 h2 h3]
  obtain newUser w' where
    "register exampleUser exampleWorld = (Inr newUser, w')"
    "ls_users w' = ls_users exampleWorld @ [newUser]"
    "exampleUser ''budget'' = Some (JNum 0) \<longrightarrow> newUser ''budget'' = Some (JNum 5000)"
    by blast
  with h4 h5 show ?thesis by simp
qed

section \<open>Properties of the notification scheduler\<close>

lemma set_insert_by: "set (insert_by gt x xs) = insert x (set xs)"
  by (induction xs) auto

lemma set_sort_by: "set (sort_by gt xs) = set xs"
  unfolding sort_by_def by (induction xs) (auto simp: set_insert_by)

lemma findIndex_replace:
  "distinct (map k xs) \<Longrightarrow>
   (case findIndex (\<lambda>a. k a = v) xs of Some i \<Rightarrow> xs[i := y] | None \<Rightarrow> xs)
     = map (\<lambda>a. if k a = v then y else a) xs"
proof (induction xs)
  case Nil
  then show ?case by simp
next
  case (Cons x xs)
  show ?case
  proof (cases "k x = v")
    case True
    with Cons.prems have "v \<notin> k ` set xs" by simp
    then have "\<forall>a\<in>set xs. k a \<noteq> v" by blast
    then have "map (\<lambda>a. if k a = v then y else a) xs = xs"
      by (simp add: map_idI)
    with True show ?thesis by simp
  next
    case False
    from Cons.prems have "distinct (map k xs)" by simp
    from Cons.IH [OF this] False show ?thesis
      by (cases "findIndex (\<lambda>a. k a = v) xs") auto
  qed
qed

lemma markNotified_blocked:
  "setItem_error w APPOINTMENTS_KEY = Some m \<Longrightarrow> markNotified appt w = w"
  by (simp add: markNotified_def updateAppointment_def saveAppointments_def Let_def
      split: option.splits)

lemma markNotified_stored:
  assumes "setItem_error w APPOINTMENTS_KEY = None"
    and "distinct (map (\<lambda>a. a ''id'') (ls_appointments w))"
  shows "markNotified appt w =
           w\<lparr>ls_appointments :=
               map (\<lambda>a. if a ''id'' = appt ''id'' then appt(''notified'' \<mapsto> JBool True) else a)
                 (ls_appointments w)\<rparr>"
proof -
  have "(case findIndex (\<lambda>a. a ''id'' = appt ''id'') (ls_appointments w) of
           Some i \<Rightarrow> (ls_appointments w)[i := appt(''notified'' \<mapsto> JBool True)]
         | None \<Rightarrow> ls_appointments w)
        = map (\<lambda>a. if a ''id'' = appt ''id'' then appt(''notified'' \<mapsto> JBool True) else a)
            (ls_appointments w)"
    using assms(2) by (rule findIndex_replace)
  then show ?thesis
    using assms(1)
    by (cases "findIndex (\<lambda>a. a ''id'' = appt ''id'') (ls_appointments w)")
      (simp_all add: markNotified_def updateAppointment_def saveAppointments_def Let_def)
qed

lemma setNotified_id [simp]: "setNotified S a ''id'' = a ''id''"
  by (simp add: setNotified_def)

lemma fold_markNotified_blocked:
  "setItem_error w APPOINTMENTS_KEY = Some m \<Longrightarrow> fold markNotified fs w = w"
  by (induction fs) (simp_all add: markNotified_blocked)

lemma fold_markNotified_stored:
  assumes ok: "setItem_error w APPOINTMENTS_KEY = None"
    and d: "distinct (map (\<lambda>a. a ''id'') (ls_appointments w))"
  shows "set fs \<subseteq> set (ls_appointments w) \<Longrightarrow>
         fold markNotified fs w =
           w\<lparr>ls_appointments := map (setNotified (set fs)) (ls_appointments w)\<rparr>"
proof (induction fs rule: rev_induct)
  case Nil
  then show ?case by (simp add: setNotified_def)
next
  case (snoc f fs)
  let ?w1 = "w\<lparr>ls_appointments := map (setNotified (set fs)) (ls_appointments w)\<rparr>"
  from snoc have w1: "fold markNotified fs w = ?w1" by simp
  have ok1: "setItem_error ?w1 APPOINTMENTS_KEY = None" using ok by simp
  have ids: "map (\<lambda>a. a ''id'') (ls_appointments ?w1) = map (\<lambda>a. a ''id'') (ls_appointments w)"
    by (simp add: comp_def)
  have d1: "distinct (map (\<lambda>a. a ''id'') (ls_appointments ?w1))"
    unfolding ids by (rule d)
  have f_in: "f \<in> set (ls_appointments w)" using snoc.prems by simp
  have pointwise: "\<And>a. a \<in> set (ls_appointments w) \<Longrightarrow>
      (if setNotified (set fs) a ''id'' = f ''id'' then f(''notified'' \<mapsto> JBool True)
       else setNotified (set fs) a) = setNotified (set (fs @ [f])) a"
  proof -
    fix a assume a_in: "a \<in> set (ls_appointments w)"
    have "a ''id'' = f ''id'' \<longleftrightarrow> a = f"
      using d a_in f_in by (auto simp: distinct_map inj_on_def)
    then show "(if setNotified (set fs) a ''id'' = f ''id'' then f(''notified'' \<mapsto> JBool True)
       else setNotified (set fs) a) = setNotified (set (fs @ [f])) a"
      by (auto simp: setNotified_def)
  qed
  have "fold markNotified (fs @ [f]) w = markNotified f ?w1"
    by (simp add: w1)
  also have "\<dots> = ?w1\<lparr>ls_appointments :=
      map (\<lambda>a. if a ''id'' = f ''id'' then f(''notified'' \<mapsto> JBool True) else a)
        (ls_appointments ?w1)\<rparr>"
    by (rule markNotified_stored [OF ok1 d1])
  also have "\<dots> = w\<lparr>ls_appointments := map (setNotified (set (fs @ [f]))) (ls_appointments w)\<rparr>"
    using pointwise by (simp add: comp_def cong: map_cong)
  finally show ?case .
qed

lemma alerts_set:
  "set (fst (checkAppointments h user now w)) =
     {a \<in> set (ls_appointments w). a ''userId'' = user ''email'' \<and> alertDue h now a}"
  by (auto simp: checkAppointments_def getAppointments_def Let_def set_sort_by)

lemma check_blocked:
  "setItem_error w APPOINTMENTS_KEY = Some m \<Longrightarrow> snd (checkAppointments h user now w) = w"
  by (simp add: checkAppointments_def Let_def fold_markNotified_blocked)

lemma check_stored:
  assumes "setItem_error w APPOINTMENTS_KEY = None"
    and "distinct (map (\<lambda>a. a ''id'') (ls_appointments w))"
  shows "snd (checkAppointments h user now w) =
           w\<lparr>ls_appointments :=
               map (setNotified (set (fst (checkAppointments h user now w)))) (ls_appointments w)\<rparr>"
proof -
  have sub: "set (fst (checkAppointments h user now w)) \<subseteq> set (ls_appointments w)"
    by (auto simp: alerts_set)
  have "snd (checkAppointments h user now w) =
          fold markNotified (fst (checkAppointments h user now w)) w"
    by (simp add: checkAppointments_def Let_def)
  then show ?thesis
    using fold_markNotified_stored [OF assms sub] by simp
qed

lemma alertDue_iff:
  "alertDue h now a \<longleftrightarrow>
     a ''status'' = Some (JStr ''scheduled'') \<and> \<not> truthy (a ''notified'') \<and>
     (\<exists>t. getTime h (a ''date'') = Some t \<and> t - now \<le> 60000 \<and> t - now > - 3600000)"
  by (auto simp: alertDue_def Let_def split: option.splits)

lemma check_ids:
  assumes "distinct (map (\<lambda>a. a ''id'') (ls_appointments w))"
  shows "map (\<lambda>a. a ''id'') (ls_appointments (snd (checkAppointments h user now w)))
           = map (\<lambda>a. a ''id'') (ls_appointments w)"
proof (cases "setItem_error w APPOINTMENTS_KEY")
  case None
  from check_stored [OF None assms] show ?thesis by (simp add: comp_def)
next
  case (Some m)
  then show ?thesis by (simp add: check_blocked)
qed

lemma check_keeps_notified:
  assumes d: "distinct (map (\<lambda>a. a ''id'') (ls_appointments w))"
    and n: "notifiedIn w i"
  shows "notifiedIn (snd (checkAppointments h user now w)) i"
proof (cases "setItem_error w APPOINTMENTS_KEY")
  case None
  from n obtain a where a: "a \<in> set (ls_appointments w)" "a ''id'' = i" "truthy (a ''notified'')"
    by (auto simp: notifiedIn_def list_ex_iff)
  let ?S = "set (fst (checkAppointments h user now w))"
  have "setNotified ?S a \<in> set (ls_appointments (snd (checkAppointments h user now w)))"
    using a(1) by (simp add: check_stored [OF None d])
  moreover have "setNotified ?S a ''id'' = i" using a(2) by simp
  moreover have "truthy (setNotified ?S a ''notified'')"
    using a(3) by (simp add: setNotified_def)
  ultimately show ?thesis
    unfolding notifiedIn_def list_ex_iff by blast
next
  case (Some m)
  with n show ?thesis by (simp add: check_blocked)
qed

lemma check_skips_notified:
  assumes d: "distinct (map (\<lambda>a. a ''id'') (ls_appointments w))"
    and n: "notifiedIn w i"
    and al: "a \<in> set (fst (checkAppointments h user now w))"
  shows "a ''id'' \<noteq> i"
proof
  assume eq: "a ''id'' = i"
  from n obtain b where b: "b \<in> set (ls_appointments w)" "b ''id'' = i" "truthy (b ''notified'')"
    by (auto simp: notifiedIn_def list_ex_iff)
  from al have a: "a \<in> set (ls_appointments w)" "alertDue h now a"
    by (auto simp: alerts_set)
  from d a(1) b(1) eq b(2) have "a = b"
    by (auto simp: distinct_map inj_on_def)
  with a(2) b(3) show False by (simp add: alertDue_iff)
qed

lemma check_rise_scheduled:
  assumes d: "distinct (map (\<lambda>a. a ''id'') (ls_appointments w))"
    and before: "\<not> notifiedIn w i"
    and after: "notifiedIn (snd (checkAppointments h user now w)) i"
  shows "\<exists>a \<in> set (ls_appointments w). a ''id'' = i \<and> a ''status'' = Some (JStr ''scheduled'')
           \<and> a \<in> set (fst (checkAppointments h user now w))"
proof (cases "setItem_error w APPOINTMENTS_KEY")
  case None
  let ?S = "set (fst (checkAppointments h user now w))"
  from after obtain a where a: "a \<in> set (ls_appointments w)" "setNotified ?S a ''id'' = i"
      "truthy (setNotified ?S a ''notified'')"
    by (auto simp: notifiedIn_def list_ex_iff check_stored [OF None d])
  have "a \<in> ?S"
  proof (rule ccontr)
    assume "a \<notin> ?S"
    with a have "a ''id'' = i \<and> truthy (a ''notified'')" by (simp add: setNotified_def)
    with a(1) before show False by (auto simp: notifiedIn_def list_ex_iff)
  qed
  moreover from this have "a ''status'' = Some (JStr ''scheduled'')"
    by (simp add: alerts_set alertDue_iff)
  ultimately show ?thesis using a(1,2) by auto
next
  case (Some m)
  with before after show ?thesis by (simp add: check_blocked)
qed

lemma check_states_length [simp]: "length (check_states h cs w) = Suc (length cs)"
  by (induction h cs w rule: check_states.induct) simp_all

lemma check_alerts_length [simp]: "length (check_alerts h cs w) = length cs"
  by (induction h cs w rule: check_alerts.induct) simp_all

lemma check_states_0 [simp]: "check_states h cs w ! 0 = w"
  by (cases cs) auto

lemma check_states_Cons: "\<exists>ws. check_states h cs w = w # ws"
  by (cases cs) auto

lemma rises_all_true: "\<forall>b \<in> set bs. b \<Longrightarrow> rises bs = 0"
  by (induction bs rule: rises.induct) auto

lemma states_stay_notified:
  "distinct (map (\<lambda>a. a ''id'') (ls_appointments w)) \<Longrightarrow> notifiedIn w i \<Longrightarrow>
   \<forall>s \<in> set (check_states h cs w). notifiedIn s i"
proof (induction h cs w rule: check_states.induct)
  case (1 h w)
  then show ?case by simp
next
  case (2 h user now cs w)
  have "distinct (map (\<lambda>a. a ''id'') (ls_appointments (snd (checkAppointments h user now w))))"
    using "2.prems"(1) by (simp add: check_ids)
  moreover have "notifiedIn (snd (checkAppointments h user now w)) i"
    using "2.prems" by (rule check_keeps_notified)
  ultimately show ?case using "2.IH" "2.prems"(2) by simp
qed

lemma rises_states:
  "distinct (map (\<lambda>a. a ''id'') (ls_appointments w)) \<Longrightarrow>
   rises (map (\<lambda>s. notifiedIn s i) (check_states h cs w)) \<le> 1"
proof (induction h cs w rule: check_states.induct)
  case (1 h w)
  then show ?case by simp
next
  case (2 h user now cs w)
  let ?w' = "snd (checkAppointments h user now w)"
  have d': "distinct (map (\<lambda>a. a ''id'') (ls_appointments ?w'))"
    using "2.prems" by (simp add: check_ids)
  obtain ws where ws: "check_states h cs ?w' = ?w' # ws"
    using check_states_Cons by blast
  show ?case
  proof (cases "notifiedIn ?w' i")
    case True
    from states_stay_notified [OF d' True, of h cs]
    have "rises (map (\<lambda>s. notifiedIn s i) (check_states h cs ?w')) = 0"
      by (intro rises_all_true) auto
    then show ?thesis by (simp add: ws)
  next
    case False
    with "2.IH" [OF d'] show ?thesis by (simp add: ws)
  qed
qed

lemma rise_only_scheduled:
  "distinct (map (\<lambda>a. a ''id'') (ls_appointments w)) \<Longrightarrow> k < length cs \<Longrightarrow>
   \<not> notifiedIn (check_states h cs w ! k) i \<Longrightarrow> notifiedIn (check_states h cs w ! Suc k) i \<Longrightarrow>
   \<exists>a \<in> set (ls_appointments (check_states h cs w ! k)).
      a ''id'' = i \<and> a ''status'' = Some (JStr ''scheduled'') \<and> a \<in> set (check_alerts h cs w ! k)"
proof (induction h cs w arbitrary: k rule: check_states.induct)
  case (1 h w)
  then show ?case by simp
next
  case (2 h user now cs w)
  let ?w' = "snd (checkAppointments h user now w)"
  have d': "distinct (map (\<lambda>a. a ''id'') (ls_appointments ?w'))"
    using "2.prems"(1) by (simp add: check_ids)
  show ?case
  proof (cases k)
    case 0
    with "2.prems" have "\<not> notifiedIn w i" "notifiedIn ?w' i" by simp_all
    from check_rise_scheduled [OF "2.prems"(1) this] 0 show ?thesis by simp
  next
    case (Suc j)
    with "2.prems" "2.IH" [OF d', of j] show ?thesis by simp
  qed
qed

lemma no_alert_after_notified:
  "distinct (map (\<lambda>a. a ''id'') (ls_appointments w)) \<Longrightarrow> notifiedIn w i \<Longrightarrow>
   \<forall>al \<in> set (check_alerts h cs w). \<forall>a \<in> set al. a ''id'' \<noteq> i"
proof (induction h cs w rule: check_alerts.induct)
  case (1 h w)
  then show ?case by simp
next
  case (2 h user now cs w)
  let ?w' = "snd (checkAppointments h user now w)"
  have d': "distinct (map (\<lambda>a. a ''id'') (ls_appointments ?w'))"
    using "2.prems"(1) by (simp add: check_ids)
  have n': "notifiedIn ?w' i" using "2.prems" by (rule check_keeps_notified)
  have "\<forall>a \<in> set (fst (checkAppointments h user now w)). a ''id'' \<noteq> i"
    using check_skips_notified [OF "2.prems"] by blast
  with "2.IH" [OF d' n'] show ?case by simp
qed

text \<open>
  What one check does with an appointment of the signed-in user: it passes it to
  \<^verbatim>\<open>setActiveAlert\<close> if and only if its status is \<open>scheduled\<close>, its \<open>notified\<close> flag
  is not set, and \<open>diff = appointmentTime - now\<close> is at most 60000 ms and strictly greater
  than \<open>-3600000\<close> ms. When identifiers are unique and the write succeeds, such an
  appointment is stored with \<open>notified = true\<close> and any other is stored unchanged. An
  appointment two hours overdue is not passed on; one 45 minutes overdue, scheduled and
  not notified, is.
\<close>

lemma alert_window:
  assumes "appt \<in> set (ls_appointments w)" and "appt ''userId'' = user ''email''"
  shows "(appt \<in> set (fst (checkAppointments h user now w)) \<longleftrightarrow>
            appt ''status'' = Some (JStr ''scheduled'') \<and> \<not> truthy (appt ''notified'') \<and>
            (\<exists>t. getTime h (appt ''date'') = Some t \<and> t - now \<le> 60000 \<and> - 3600000 < t - now))
       \<and> (setItem_error w APPOINTMENTS_KEY = None
            \<and> distinct (map (\<lambda>a. a ''id'') (ls_appointments w)) \<longrightarrow>
          (if appt \<in> set (fst (checkAppointments h user now w))
           then appt(''notified'' \<mapsto> JBool True)
                  \<in> set (ls_appointments (snd (checkAppointments h user now w)))
                \<and> notifiedIn (snd (checkAppointments h user now w)) (appt ''id'')
           else appt \<in> set (ls_appointments (snd (checkAppointments h user now w)))))
       \<and> (\<forall>t. getTime h (appt ''date'') = Some t \<and> t - now = - 7200000 \<longrightarrow>
            appt \<notin> set (fst (checkAppointments h user now w)))
       \<and> (\<forall>t. appt ''status'' = Some (JStr ''scheduled'') \<and> \<not> truthy (appt ''notified'')
              \<and> getTime h (appt ''date'') = Some t \<and> t - now = - 2700000 \<longrightarrow>
            appt \<in> set (fst (checkAppointments h user now w)))"
proof -
  let ?al = "fst (checkAppointments h user now w)"
  let ?w' = "snd (checkAppointments h user now w)"
  have iff: "appt \<in> set ?al \<longleftrightarrow>
            appt ''status'' = Some (JStr ''scheduled'') \<and> \<not> truthy (appt ''notified'') \<and>
            (\<exists>t. getTime h (appt ''date'') = Some t \<and> t - now \<le> 60000 \<and> - 3600000 < t - now)"
    using assms by (simp add: alerts_set alertDue_iff)
  have stored: "if appt \<in> set ?al
           then appt(''notified'' \<mapsto> JBool True) \<in> set (ls_appointments ?w')
                \<and> notifiedIn ?w' (appt ''id'')
           else appt \<in> set (ls_appointments ?w')"
    if ok: "setItem_error w APPOINTMENTS_KEY = None"
      and d: "distinct (map (\<lambda>a. a ''id'') (ls_appointments w))"
  proof -
    have m: "setNotified (set ?al) appt \<in> set (ls_appointments ?w')"
      using assms(1) by (simp add: check_stored [OF ok d])
    show ?thesis
    proof (cases "appt \<in> set ?al")
      case True
      with m have m': "appt(''notified'' \<mapsto> JBool True) \<in> set (ls_appointments ?w')"
        by (simp add: setNotified_def)
      have "(appt(''notified'' \<mapsto> JBool True)) ''id'' = appt ''id''"
        and "truthy ((appt(''notified'' \<mapsto> JBool True)) ''notified'')"
        by simp_all
      with m' have "notifiedIn ?w' (appt ''id'')"
        unfolding notifiedIn_def list_ex_iff by blast
      with m' True show ?thesis by simp
    next
      case False
      with m show ?thesis by (simp add: setNotified_def)
    qed
  qed
  have far: "appt \<notin> set ?al" if "getTime h (appt ''date'') = Some t" "t - now = - 7200000" for t
    using that by (simp add: iff)
  have near: "appt \<in> set ?al"
    if "appt ''status'' = Some (JStr ''scheduled'')" "\<not> truthy (appt ''notified'')"
      "getTime h (appt ''date'') = Some t" "t - now = - 2700000" for t
    using that by (simp add: iff)
  from iff stored far near show ?thesis by blast
qed

lemma alert_window_example:
  "apptAt ''late45'' 7300000 \<in> set (fst (checkAppointments exampleHost exampleUser 10000000 exampleAgenda))
   \<and> notifiedIn (snd (checkAppointments exampleHost exampleUser 10000000 exampleAgenda))
       (Some (JStr ''late45''))
   \<and> apptAt ''late120'' 2800000 \<notin> set (fst (checkAppointments exampleHost exampleUser 10000000 exampleAgenda))"
proof -
  have in45: "apptAt ''late45'' 7300000 \<in> set (ls_appointments exampleAgenda)"
    and in120: "apptAt ''late120'' 2800000 \<in> set (ls_appointments exampleAgenda)"
    by (simp_all add: exampleAgenda_def)
  have owner: "apptAt i t ''userId'' = exampleUser ''email''" for i t
    by (simp add: apptAt_def exampleUser_def)
  have ok: "setItem_error exampleAgenda APPOINTMENTS_KEY = None"
    by (simp add: exampleAgenda_def exampleWorld_def)
  have d: "distinct (map (\<lambda>a. a ''id'') (ls_appointments exampleAgenda))"
    by (simp add: exampleAgenda_def apptAt_def)
  have t45: "getTime exampleHost (apptAt ''late45'' 7300000 ''date'') = Some 7300000"
    and t120: "getTime exampleHost (apptAt ''late120'' 2800000 ''date'') = Some 2800000"
    by (simp_all add: exampleHost_def apptAt_def)
  have fresh: "apptAt i t ''status'' = Some (JStr ''scheduled'')"
    "\<not> truthy (apptAt i t ''notified'')" "apptAt i t ''id'' = Some (JStr i)" for i t
    by (simp_all add: apptAt_def)
  note T45 = alert_window [where appt = "apptAt ''late45'' 7300000" and w = exampleAgenda
      and user = exampleUser and h = exampleHost and now = 10000000, OF in45 owner]
  note T120 = alert_window [where appt = "apptAt ''late120'' 2800000" and w = exampleAgenda
      and user = exampleUser and h = exampleHost and now = 10000000, OF in120 owner]
  have fired: "apptAt ''late45'' 7300000
      \<in> set (fst (checkAppointments exampleHost exampleUser 10000000 exampleAgenda))"
    using T45 [THEN conjunct1] t45 fresh by simp
  have a: "notifiedIn (snd (checkAppointments exampleHost exampleUser 10000000 exampleAgenda))
       (Some (JStr ''late45''))"
    using T45 [THEN conjunct2, THEN conjunct1] ok d fired fresh(3) by simp
  have b: "apptAt ''late120'' 2800000 \<notin> set (fst (checkAppointments exampleHost exampleUser 10000000 exampleAgenda))"
    using T120 [THEN conjunct1] t120 by simp
  from fired a b show ?thesis by simp
qed

text \<open>
  The code compares with \<open>>\<close>: an appointment exactly one hour overdue is "no more than
  one hour in the past" and is not alerted.
\<close>

lemma exactly_one_hour_not_alerted:
  "apptAt ''late60'' 6400000 \<in> set (ls_appointments exampleAgenda)
   \<and> apptAt ''late60'' 6400000 ''userId'' = exampleUser ''email''
   \<and> apptAt ''late60'' 6400000 ''status'' = Some (JStr ''scheduled'')
   \<and> apptAt ''late60'' 6400000 ''notified'' = Some (JBool False)
   \<and> getTime exampleHost (apptAt ''late60'' 6400000 ''date'') = Some 6400000
   \<and> (6400000::int) - 10000000 \<le> 60000
   \<and> - ((6400000::int) - 10000000) \<le> 60 * 60000
   \<and> apptAt ''late60'' 6400000
        \<notin> set (fst (checkAppointments exampleHost exampleUser 10000000 exampleAgenda))
   \<and> apptAt ''late60'' 6400000
        \<in> set (ls_appointments (snd (checkAppointments exampleHost exampleUser 10000000 exampleAgenda)))"
proof -
  have in60: "apptAt ''late60'' 6400000 \<in> set (ls_appointments exampleAgenda)"
    by (simp add: exampleAgenda_def)
  have owner: "apptAt ''late60'' 6400000 ''userId'' = exampleUser ''email''"
    by (simp add: apptAt_def exampleUser_def)
  have fields: "apptAt ''late60'' 6400000 ''status'' = Some (JStr ''scheduled'')"
    "apptAt ''late60'' 6400000 ''notified'' = Some (JBool False)"
    by (simp_all add: apptAt_def)
  have t60: "getTime exampleHost (apptAt ''late60'' 6400000 ''date'') = Some 6400000"
    by (simp add: exampleHost_def apptAt_def)
  have ok: "setItem_error exampleAgenda APPOINTMENTS_KEY = None"
    by (simp add: exampleAgenda_def exampleWorld_def)
  have d: "distinct (map (\<lambda>a. a ''id'') (ls_appointments exampleAgenda))"
    by (simp add: exampleAgenda_def apptAt_def)
  have not_due: "\<not> alertDue exampleHost 10000000 (apptAt ''late60'' 6400000)"
    by (simp add: alertDue_iff t60)
  have out: "apptAt ''late60'' 6400000
        \<notin> set (fst (checkAppointments exampleHost exampleUser 10000000 exampleAgenda))"
    using not_due by (simp add: alerts_set)
  have "setNotified (set (fst (checkAppointments exampleHost exampleUser 10000000 exampleAgenda)))
          (apptAt ''late60'' 6400000)
        \<in> set (ls_appointments (snd (checkAppointments exampleHost exampleUser 10000000 exampleAgenda)))"
    using in60 by (simp add: check_stored [OF ok d])
  with out have kept: "apptAt ''late60'' 6400000
        \<in> set (ls_appointments (snd (checkAppointments exampleHost exampleUser 10000000 exampleAgenda)))"
    by (simp add: setNotified_def)
  from in60 owner fields t60 out kept show ?thesis by simp
qed

lemma fold_last_shown:
  "fold (\<lambda>appt shown. Some appt) alerted shown0
     = (if alerted = [] then shown0 else Some (last alerted))"
  by (induction alerted arbitrary: shown0) auto

lemma runCheck_shows_last:
  "activeAlert (runCheck h user now a)
     = (if fst (checkAppointments h user now (appStore a)) = [] then activeAlert a
        else Some (last (fst (checkAppointments h user now (appStore a)))))"
  by (simp add: runCheck_def Let_def split_beta fold_last_shown)

lemmas check_defs =
  checkAppointments_def getAppointments_def sort_by_def diff_positive_def
  alertDue_def markNotified_def updateAppointment_def saveAppointments_def Let_def
  exampleWorld_def exampleUser_def exampleHost_def apptAt_def APPOINTMENTS_KEY_def

text \<open>
  Claim C1 fails on the code. A check that finds two due appointments hands both to
  \<^verbatim>\<open>setActiveAlert\<close> and stores both as notified, but the single alert slot then holds
  only the last: the first is never displayed, and no later check alerts it again. In
  the same check an appointment exactly one hour overdue, which the claim's window and
  the code's own comment ("up to 1 hour overdue") include, is not alerted.
\<close>

theorem due_alert_overwritten:
  "fst (checkAppointments exampleHost exampleUser 10000000 busyAgenda)
     = [apptAt ''late45'' 7300000, apptAt ''soon'' 10030000]
   \<and> activeAlert (runCheck exampleHost exampleUser 10000000
                    \<lparr>activeAlert = None, appStore = busyAgenda\<rparr>)
     = Some (apptAt ''soon'' 10030000)
   \<and> map (\<lambda>a. (a ''id'', a ''notified''))
        (ls_appointments (appStore (runCheck exampleHost exampleUser 10000000
                                      \<lparr>activeAlert = None, appStore = busyAgenda\<rparr>)))
     = [(Some (JStr ''late45''), Some (JBool True)), (Some (JStr ''soon''), Some (JBool True)),
        (Some (JStr ''late60''), Some (JBool False))]
   \<and> fst (checkAppointments exampleHost exampleUser 10030000
            (appStore (runCheck exampleHost exampleUser 10000000
                         \<lparr>activeAlert = None, appStore = busyAgenda\<rparr>))) = []
   \<and> apptAt ''late60'' 6400000 ''status'' = Some (JStr ''scheduled'')
   \<and> getTime exampleHost (apptAt ''late60'' 6400000 ''date'') = Some 6400000
   \<and> (6400000::int) - 10000000 \<le> 60000
   \<and> - ((6400000::int) - 10000000) \<le> 60 * 60000"
  by (simp add: runCheck_def busyAgenda_def check_defs)

lemma example_run:
  "check_alerts exampleHost [(exampleUser, 10000000), (exampleUser, 10030000)] exampleAgenda
     = [[apptAt ''late45'' 7300000], []]"
  by (simp add: checkAppointments_def getAppointments_def sort_by_def diff_positive_def
      alertDue_def markNotified_def updateAppointment_def saveAppointments_def Let_def
      exampleAgenda_def exampleWorld_def exampleUser_def exampleHost_def apptAt_def
      APPOINTMENTS_KEY_def)

lemma example_flags:
  "map (\<lambda>s. notifiedIn s (Some (JStr ''late45'')))
     (check_states exampleHost [(exampleUser, 10000000), (exampleUser, 10030000)] exampleAgenda)
     = [False, True, True]"
  by (simp add: checkAppointments_def getAppointments_def sort_by_def diff_positive_def
      alertDue_def markNotified_def updateAppointment_def saveAppointments_def Let_def
      exampleAgenda_def exampleWorld_def exampleUser_def exampleHost_def apptAt_def
      APPOINTMENTS_KEY_def notifiedIn_def)

lemma addAppointment_starts:
  "setItem_error w APPOINTMENTS_KEY = None \<Longrightarrow>
   \<exists>a w'. addAppointment appt w = (Inr a, w') \<and> a ''notified'' = Some (JBool False)
      \<and> a ''status'' = Some (JStr ''scheduled'')
      \<and> ls_appointments w' = ls_appointments w @ [a]"
  by (simp add: addAppointment_def randomUUID_def saveAppointments_def bind_exn_def Let_def)

text \<open>
  Claim C2. An appointment is created \<open>scheduled\<close> with \<open>notified = false\<close>. Over any
  sequence of checks from a store with unique identifiers, the \<open>notified\<close> flag of an
  appointment goes from unset to set at most once; a check that sets it found the
  appointment \<open>scheduled\<close> and alerted it; and once the flag is set it stays set and no
  later check alerts that appointment.
\<close>

theorem notified_at_most_once:
  assumes "distinct (map (\<lambda>a. a ''id'') (ls_appointments w))"
  shows "rises (map (\<lambda>s. notifiedIn s i) (check_states h cs w)) \<le> 1
       \<and> (\<forall>k<length cs.
            \<not> notifiedIn (check_states h cs w ! k) i \<and> notifiedIn (check_states h cs w ! Suc k) i \<longrightarrow>
            (\<exists>a \<in> set (ls_appointments (check_states h cs w ! k)).
               a ''id'' = i \<and> a ''status'' = Some (JStr ''scheduled'')
               \<and> a \<in> set (check_alerts h cs w ! k)))
       \<and> (notifiedIn w i \<longrightarrow>
            (\<forall>s \<in> set (check_states h cs w). notifiedIn s i)
            \<and> (\<forall>al \<in> set (check_alerts h cs w). \<forall>a \<in> set al. a ''id'' \<noteq> i))
       \<and> (\<forall>appt. setItem_error w APPOINTMENTS_KEY = None \<longrightarrow>
            (\<exists>a w'. addAppointment appt w = (Inr a, w') \<and> a ''notified'' = Some (JBool False)
               \<and> a ''status'' = Some (JStr ''scheduled'')
               \<and> ls_appointments w' = ls_appointments w @ [a]))"
  using assms rises_states [of w i h cs] rise_only_scheduled [of w _ cs h i]
    states_stay_notified [of w i h cs] no_alert_after_notified [of w i h cs]
    addAppointment_starts [of w]
  by blast

theorem notified_at_most_once_witness:
  "rises (map (\<lambda>s. notifiedIn s (Some (JStr ''late45'')))
       (check_states exampleHost [(exampleUser, 10000000), (exampleUser, 10030000)] exampleAgenda)) \<le> 1
   \<and> map (\<lambda>s. notifiedIn s (Some (JStr ''late45'')))
       (check_states exampleHost [(exampleUser, 10000000), (exampleUser, 10030000)] exampleAgenda)
       = [False, True, True]
   \<and> check_alerts exampleHost [(exampleUser, 10000000), (exampleUser, 10030000)] exampleAgenda
       = [[apptAt ''late45'' 7300000], []]"
proof -
  have d: "distinct (map (\<lambda>a. a ''id'') (ls_appointments exampleAgenda))"
    by (simp add: exampleAgenda_def apptAt_def)
  from notified_at_most_once [OF d, of "Some (JStr ''late45'')" exampleHost
      "[(exampleUser, 10000000), (exampleUser, 10030000)]"]
  have "rises (map (\<lambda>s. notifiedIn s (Some (JStr ''late45'')))
       (check_states exampleHost [(exampleUser, 10000000), (exampleUser, 10030000)] exampleAgenda)) \<le> 1"
    by (rule conjunct1)
  with example_run example_flags show ?thesis by simp
qed

section \<open>Properties of the tool bridge\<close>

lemma executeExpenseTool_returns:
  "\<exists>r w'. executeExpenseTool h name args user w = (Inr r, w')"
  by (cases "toolBody h name args user w") (auto simp: executeExpenseTool_def split: sum.splits)

lemma find_sorted_None:
  "\<forall>x \<in> set xs. \<not> P x \<Longrightarrow> find P (sort_by gt (filter Q xs)) = None"
  by (simp add: find_None_iff set_sort_by)

lemma unknown_expense:
  assumes "\<forall>e \<in> set (ls_expenses w). e ''id'' \<noteq> args ''id''"
  shows "executeExpenseTool h ''updateExpense'' args user w = (Inr (ToolError ''Expense not found''), w)"
  using find_sorted_None [of "ls_expenses w" "\<lambda>e. e ''id'' = args ''id''"] assms
  by (simp add: executeExpenseTool_def toolBody_def getExpenses_def Let_def)

lemma unknown_appointment_status:
  assumes "\<forall>a \<in> set (ls_appointments w). a ''id'' \<noteq> args ''id''"
  shows "executeExpenseTool h ''updateAppointmentStatus'' args user w
           = (Inr (ToolError ''Appointment not found''), w)"
  using find_sorted_None [of "ls_appointments w" "\<lambda>e. e ''id'' = args ''id''"] assms
  by (simp add: executeExpenseTool_def toolBody_def getAppointments_def Let_def)

lemma unknown_appointment_delete:
  assumes "\<forall>a \<in> set (ls_appointments w). a ''id'' \<noteq> args ''id''"
    and "setItem_error w APPOINTMENTS_KEY = None"
  shows "executeExpenseTool h ''deleteAppointment'' args user w
           = (Inr (ToolResult ''Appointment deleted''), w)"
proof -
  have "filter (\<lambda>a. a ''id'' \<noteq> args ''id'') (ls_appointments w) = ls_appointments w"
    using assms(1) by (simp add: filter_id_conv)
  then show ?thesis
    using assms(2)
    by (simp add: executeExpenseTool_def toolBody_def deleteAppointment_def
        saveAppointments_def bind_exn_def)
qed

text \<open>
  Claim C8. With an id that no stored expense and no stored appointment carries,
  \<open>updateExpense\<close> and \<open>updateAppointmentStatus\<close> return an error result
  (\<open>Expense not found\<close>, \<open>Appointment not found\<close>) and leave the store as it was;
  \<open>deleteAppointment\<close> returns the success result \<open>Appointment deleted\<close>, also with
  the store as it was, provided the write itself is accepted.
\<close>

theorem unknown_id_results:
  assumes "\<forall>e \<in> set (ls_expenses w). e ''id'' \<noteq> args ''id''"
    and "\<forall>a \<in> set (ls_appointments w). a ''id'' \<noteq> args ''id''"
  shows "executeExpenseTool h ''updateExpense'' args user w
           = (Inr (ToolError ''Expense not found''), w)
       \<and> executeExpenseTool h ''updateAppointmentStatus'' args user w
           = (Inr (ToolError ''Appointment not found''), w)
       \<and> (setItem_error w APPOINTMENTS_KEY = None \<longrightarrow>
            executeExpenseTool h ''deleteAppointment'' args user w
              = (Inr (ToolResult ''Appointment deleted''), w))"
  using assms unknown_expense unknown_appointment_status unknown_appointment_delete
  by blast

theorem unknown_id_results_witness:
  "executeExpenseTool exampleHost ''updateExpense'' (Map.empty(''id'' \<mapsto> JStr ''nobody''))
       exampleUser exampleAgenda = (Inr (ToolError ''Expense not found''), exampleAgenda)
   \<and> executeExpenseTool exampleHost ''updateAppointmentStatus''
       (Map.empty(''id'' \<mapsto> JStr ''nobody'', ''status'' \<mapsto> JStr ''completed''))
       exampleUser exampleAgenda = (Inr (ToolError ''Appointment not found''), exampleAgenda)
   \<and> executeExpenseTool exampleHost ''deleteAppointment'' (Map.empty(''id'' \<mapsto> JStr ''nobody''))
       exampleUser exampleAgenda = (Inr (ToolResult ''Appointment deleted''), exampleAgenda)"
proof -
  have e: "\<forall>e \<in> set (ls_expenses exampleAgenda). e ''id'' \<noteq> Some (JStr ''nobody'')"
    by (simp add: exampleAgenda_def exampleWorld_def)
  have a: "\<forall>a \<in> set (ls_appointments exampleAgenda). a ''id'' \<noteq> Some (JStr ''nobody'')"
    by (simp add: exampleAgenda_def apptAt_def)
  have ok: "setItem_error exampleAgenda APPOINTMENTS_KEY = None"
    by (simp add: exampleAgenda_def exampleWorld_def)
  from unknown_id_results [of exampleAgenda "Map.empty(''id'' \<mapsto> JStr ''nobody'')"
      exampleHost exampleUser] e a ok
  have 1: "executeExpenseTool exampleHost ''updateExpense'' (Map.empty(''id'' \<mapsto> JStr ''nobody''))
       exampleUser exampleAgenda = (Inr (ToolError ''Expense not found''), exampleAgenda)"
    and 3: "executeExpenseTool exampleHost ''deleteAppointment'' (Map.empty(''id'' \<mapsto> JStr ''nobody''))
       exampleUser exampleAgenda = (Inr (ToolResult ''Appointment deleted''), exampleAgenda)"
    by simp_all
  from unknown_id_results [of exampleAgenda
      "Map.empty(''id'' \<mapsto> JStr ''nobody'', ''status'' \<mapsto> JStr ''completed'')"
      exampleHost exampleUser] e a
  have 2: "executeExpenseTool exampleHost ''updateAppointmentStatus''
       (Map.empty(''id'' \<mapsto> JStr ''nobody'', ''status'' \<mapsto> JStr ''completed''))
       exampleUser exampleAgenda = (Inr (ToolError ''Appointment not found''), exampleAgenda)"
    by simp
  from 1 2 3 show ?thesis by simp
qed

lemma unknown_tool:
  "name \<notin> set toolNames \<Longrightarrow>
   executeExpenseTool h name args user w = (Inr (ToolError ''Unknown tool''), w)"
  by (simp add: toolNames_def executeExpenseTool_def toolBody_def)

lemma caught:
  "toolBody h name args user w = (Inl m, w') \<Longrightarrow>
   executeExpenseTool h name args user w = (Inr (ToolError m), w')"
  by (simp add: executeExpenseTool_def)

lemma addExpense_blocked:
  "setItem_error w EXPENSES_KEY = Some m \<Longrightarrow>
   fst (executeExpenseTool h ''addExpense'' args user w) = Inr (ToolError m)"
  by (simp add: executeExpenseTool_def toolBody_def addExpense_def randomUUID_def
      saveExpenses_def bind_exn_def Let_def)

lemma addAppointment_blocked:
  "setItem_error w APPOINTMENTS_KEY = Some m \<Longrightarrow>
   fst (executeExpenseTool h ''addAppointment'' args user w) = Inr (ToolError m)"
  by (simp add: executeExpenseTool_def toolBody_def addAppointment_def randomUUID_def
      saveAppointments_def bind_exn_def Let_def)

lemma deleteAppointment_blocked:
  "setItem_error w APPOINTMENTS_KEY = Some m \<Longrightarrow>
   executeExpenseTool h ''deleteAppointment'' args user w = (Inr (ToolError m), w)"
  by (simp add: executeExpenseTool_def toolBody_def deleteAppointment_def
      saveAppointments_def bind_exn_def Let_def)

section \<open>Properties of the chat dispatcher\<close>

lemma sendLoop_done: "\<not> i < 3 \<Longrightarrow> sendLoop svc p i lastError c = (Inl lastError, c)"
  by (subst sendLoop.simps) simp

lemma sendLoop_ok:
  "i < 3 \<Longrightarrow> chatSession c \<Longrightarrow> svc (sendCalls c) p = Inr r \<Longrightarrow>
   sendLoop svc p i lastError c = (Inr r, c\<lparr>sendCalls := sendCalls c @ [p]\<rparr>)"
  by (subst sendLoop.simps) simp

lemma sendLoop_fail:
  "i < 3 \<Longrightarrow> chatSession c \<Longrightarrow> svc (sendCalls c) p = Inl e \<Longrightarrow>
   sendLoop svc p i lastError c =
     sendLoop svc p (i + 1) (Some e)
       (c\<lparr>sendCalls := sendCalls c @ [p], delays := delays c @ [1000 * (i + 1)]\<rparr>)"
  by (subst sendLoop.simps) simp

lemma sendLoop_lost:
  "i < 3 \<Longrightarrow> \<not> chatSession c \<Longrightarrow>
   sendLoop svc p i lastError c =
     sendLoop svc p (i + 1) (Some ''Chat session lost'')
       (c\<lparr>delays := delays c @ [1000 * (i + 1)]\<rparr>)"
  by (subst sendLoop.simps) simp

lemma sendLoop_frame:
  "\<exists>res n ks. sendLoop svc p i lastError c
       = (res, c\<lparr>sendCalls := sendCalls c @ replicate n p, delays := delays c @ ks\<rparr>)
     \<and> n \<le> 3 - i \<and> (chatSession c \<and> i < 3 \<longrightarrow> 1 \<le> n)"
proof (induction svc p i lastError c rule: sendLoop.induct)
  case (1 svc p i lastError c)
  show ?case
  proof (cases "i < 3")
    case False
    then have "sendLoop svc p i lastError c
        = (Inl lastError, c\<lparr>sendCalls := sendCalls c @ replicate 0 p, delays := delays c @ []\<rparr>)"
      by (simp add: sendLoop_done)
    with False show ?thesis by blast
  next
    case True
    show ?thesis
    proof (cases "chatSession c")
      case False
      let ?c1 = "c\<lparr>delays := delays c @ [1000 * (i + 1)]\<rparr>"
      from "1.IH"(1) [OF True] False obtain res n ks where
        r: "sendLoop svc p (i + 1) (Some ''Chat session lost'') ?c1
              = (res, ?c1\<lparr>sendCalls := sendCalls ?c1 @ replicate n p, delays := delays ?c1 @ ks\<rparr>)"
        and n: "n \<le> 3 - (i + 1)"
        by auto
      have "sendLoop svc p i lastError c
          = (res, c\<lparr>sendCalls := sendCalls c @ replicate n p,
                     delays := delays c @ (1000 * (i + 1)) # ks\<rparr>)"
        using True False r by (simp add: sendLoop_lost)
      with n False show ?thesis by (intro exI [of _ res] exI [of _ n] exI) auto
    next
      case session: True
      show ?thesis
      proof (cases "svc (sendCalls c) p")
        case (Inr r)
        with True session have "sendLoop svc p i lastError c
            = (Inr r, c\<lparr>sendCalls := sendCalls c @ replicate 1 p, delays := delays c @ []\<rparr>)"
          by (simp add: sendLoop_ok)
        moreover from True have "(1::nat) \<le> 3 - i" by simp
        ultimately show ?thesis by blast
      next
        case (Inl e)
        let ?c1 = "c\<lparr>sendCalls := sendCalls c @ [p], delays := delays c @ [1000 * (i + 1)]\<rparr>"
        from "1.IH"(2) [OF True _ Inl] session obtain res n ks where
          r: "sendLoop svc p (i + 1) (Some e) ?c1
                = (res, ?c1\<lparr>sendCalls := sendCalls ?c1 @ replicate n p, delays := delays ?c1 @ ks\<rparr>)"
          and n: "n \<le> 3 - (i + 1)"
          by auto
        have "sendLoop svc p i lastError c
            = (res, c\<lparr>sendCalls := sendCalls c @ replicate (Suc n) p,
                       delays := delays c @ (1000 * (i + 1)) # ks\<rparr>)"
          using True session Inl r by (simp add: sendLoop_fail)
        moreover from n True have "Suc n \<le> 3 - i" by simp
        ultimately show ?thesis by (intro exI [of _ res] exI [of _ "Suc n"] exI) auto
      qed
    qed
  qed
qed

lemma sendMessageWithRetry_frame:
  "\<exists>res n ks. sendMessageWithRetry svc p c
       = (res, c\<lparr>sendCalls := sendCalls c @ replicate n p, delays := delays c @ ks\<rparr>)
     \<and> n \<le> 3 \<and> (chatSession c \<longrightarrow> 1 \<le> n)"
  using sendLoop_frame [of svc p 0 None c] by (simp add: sendMessageWithRetry_def)

lemma extraAfter_card:
  "hasCard (extraAfter name r ex) \<longleftrightarrow>
     hasCard ex \<or> createdCard (FunctionResponse \<lparr>fr_id = i, fr_name = name, fr_response = ResultTool r\<rparr>)"
  by (cases r) (auto simp: extraAfter_def hasCard_def)

lemma dispatchCalls_spec:
  "\<exists>ex' new c'.
      dispatchCalls h user fcs ex frs c = (Inr (ex', frs @ new), c')
    \<and> map responseKey new = map (\<lambda>fc. Some (fc_id fc, fc_name fc)) fcs
    \<and> sendCalls c' = sendCalls c \<and> delays c' = delays c \<and> spoken c' = spoken c
    \<and> chatSession c' = chatSession c
    \<and> messages c' = messages c @ formsFor fcs
    \<and> (hasCard ex' \<longleftrightarrow> hasCard ex \<or> list_ex createdCard new)"
proof (induction fcs arbitrary: ex frs c)
  case Nil
  then show ?case by (simp add: formsFor_def)
next
  case (Cons fc fcs)
  show ?case
  proof (cases "fc_name fc = ''requestManualEntry''")
    case True
    let ?p = "FunctionResponse \<lparr>fr_id = fc_id fc, fr_name = fc_name fc,
                                fr_response = ResultText ''Form shown''\<rparr>"
    let ?c1 = "c\<lparr>messages := messages c @ [formMessage (fc_args fc ''prefilledDescription'')]\<rparr>"
    from Cons.IH [of ex "frs @ [?p]" ?c1] obtain ex' new c' where
      r: "dispatchCalls h user fcs ex (frs @ [?p]) ?c1 = (Inr (ex', (frs @ [?p]) @ new), c')"
      and k: "map responseKey new = map (\<lambda>fc. Some (fc_id fc, fc_name fc)) fcs"
      and f: "sendCalls c' = sendCalls ?c1" "delays c' = delays ?c1" "spoken c' = spoken ?c1"
        "chatSession c' = chatSession ?c1" "messages c' = messages ?c1 @ formsFor fcs"
      and card: "hasCard ex' \<longleftrightarrow> hasCard ex \<or> list_ex createdCard new"
      by blast
    have "dispatchCalls h user (fc # fcs) ex frs c = (Inr (ex', frs @ (?p # new)), c')"
      using True r by simp
    moreover have "map responseKey (?p # new) = map (\<lambda>fc. Some (fc_id fc, fc_name fc)) (fc # fcs)"
      using k by simp
    moreover have "messages c' = messages c @ formsFor (fc # fcs)"
      using f(5) True by (simp add: formsFor_def)
    moreover have "hasCard ex' \<longleftrightarrow> hasCard ex \<or> list_ex createdCard (?p # new)"
      using card by simp
    ultimately show ?thesis using f(1-4) by (intro exI [of _ ex'] exI [of _ "?p # new"] exI [of _ c']) simp
  next
    case False
    obtain r w1 where t: "executeExpenseTool h (fc_name fc) (fc_args fc) user (store c) = (Inr r, w1)"
      using executeExpenseTool_returns by blast
    let ?p = "FunctionResponse \<lparr>fr_id = fc_id fc, fr_name = fc_name fc,
                                fr_response = ResultTool r\<rparr>"
    let ?c1 = "c\<lparr>store := w1\<rparr>"
    let ?ex1 = "extraAfter (fc_name fc) r ex"
    from Cons.IH [of ?ex1 "frs @ [?p]" ?c1] obtain ex' new c' where
      r: "dispatchCalls h user fcs ?ex1 (frs @ [?p]) ?c1 = (Inr (ex', (frs @ [?p]) @ new), c')"
      and k: "map responseKey new = map (\<lambda>fc. Some (fc_id fc, fc_name fc)) fcs"
      and f: "sendCalls c' = sendCalls ?c1" "delays c' = delays ?c1" "spoken c' = spoken ?c1"
        "chatSession c' = chatSession ?c1" "messages c' = messages ?c1 @ formsFor fcs"
      and card: "hasCard ex' \<longleftrightarrow> hasCard ?ex1 \<or> list_ex createdCard new"
      by blast
    have "dispatchCalls h user (fc # fcs) ex frs c = (Inr (ex', frs @ (?p # new)), c')"
      using False r t by simp
    moreover have "map responseKey (?p # new) = map (\<lambda>fc. Some (fc_id fc, fc_name fc)) (fc # fcs)"
      using k by simp
    moreover have "messages c' = messages c @ formsFor (fc # fcs)"
      using f(5) False by (simp add: formsFor_def)
    moreover have "hasCard ex' \<longleftrightarrow> hasCard ex \<or> list_ex createdCard (?p # new)"
      using card extraAfter_card [of "fc_name fc" r ex "fc_id fc"] by simp
    ultimately show ?thesis using f(1-4) by (intro exI [of _ ex'] exI [of _ "?p # new"] exI [of _ c']) simp
  qed
qed

text \<open>
  Claim C9. For every tool name, argument object, user and store, \<open>executeExpenseTool\<close>
  returns a result object and does not throw. A name outside the nine declared tools gives
  the error result \<open>Unknown tool\<close>. Whatever the body throws is returned as the error
  result with that message; in particular a rejected localStorage write during
  \<open>addExpense\<close>, \<open>addAppointment\<close> or \<open>deleteAppointment\<close>. The dispatcher's loop
  over any list of function calls therefore always completes, with one response per call.
\<close>

theorem tool_bridge_never_throws:
  "(\<exists>r w'. executeExpenseTool h name args user w = (Inr r, w'))
   \<and> (name \<notin> set toolNames \<longrightarrow>
        executeExpenseTool h name args user w = (Inr (ToolError ''Unknown tool''), w))
   \<and> (\<forall>m w'. toolBody h name args user w = (Inl m, w') \<longrightarrow>
        executeExpenseTool h name args user w = (Inr (ToolError m), w'))
   \<and> (\<forall>m. setItem_error w EXPENSES_KEY = Some m \<longrightarrow>
        fst (executeExpenseTool h ''addExpense'' args user w) = Inr (ToolError m))
   \<and> (\<forall>m. setItem_error w APPOINTMENTS_KEY = Some m \<longrightarrow>
        fst (executeExpenseTool h ''addAppointment'' args user w) = Inr (ToolError m)
        \<and> executeExpenseTool h ''deleteAppointment'' args user w = (Inr (ToolError m), w))
   \<and> (\<exists>ex' new c'. dispatchCalls h user fcs ex frs c = (Inr (ex', frs @ new), c')
        \<and> length new = length fcs)"
proof -
  from dispatchCalls_spec [of h user fcs ex frs c] obtain ex' new c' where
    "dispatchCalls h user fcs ex frs c = (Inr (ex', frs @ new), c')"
    "map responseKey new = map (\<lambda>fc. Some (fc_id fc, fc_name fc)) fcs"
    by blast
  then have "dispatchCalls h user fcs ex frs c = (Inr (ex', frs @ new), c') \<and> length new = length fcs"
    using map_eq_imp_length_eq by blast
  then have d: "\<exists>ex' new c'. dispatchCalls h user fcs ex frs c = (Inr (ex', frs @ new), c')
        \<and> length new = length fcs"
    by blast
  show ?thesis
    using executeExpenseTool_returns [of h name args user w] unknown_tool [of name h args user w]
      caught [of h name args user w] addExpense_blocked [of w _ h args user]
      addAppointment_blocked [of w _ h args user] deleteAppointment_blocked [of w _ h args user] d
    by blast
qed

theorem tool_bridge_never_throws_witness:
  "executeExpenseTool exampleHost ''transferMoney'' Map.empty exampleUser blockedWorld
     = (Inr (ToolError ''Unknown tool''), blockedWorld)
   \<and> fst (executeExpenseTool exampleHost ''addExpense'' (Map.empty(''amount'' \<mapsto> JNum 50))
           exampleUser blockedWorld) = Inr (ToolError ''QuotaExceededError'')
   \<and> executeExpenseTool exampleHost ''deleteAppointment'' (Map.empty(''id'' \<mapsto> JStr ''late45''))
           exampleUser blockedWorld = (Inr (ToolError ''QuotaExceededError''), blockedWorld)"
proof -
  have u: "''transferMoney'' \<notin> set toolNames" by (simp add: toolNames_def)
  have b: "setItem_error blockedWorld EXPENSES_KEY = Some ''QuotaExceededError''"
    "setItem_error blockedWorld APPOINTMENTS_KEY = Some ''QuotaExceededError''"
    by (simp_all add: blockedWorld_def)
  from tool_bridge_never_throws [of exampleHost "''transferMoney''" Map.empty exampleUser blockedWorld] u
  have 1: "executeExpenseTool exampleHost ''transferMoney'' Map.empty exampleUser blockedWorld
     = (Inr (ToolError ''Unknown tool''), blockedWorld)"
    by blast
  from tool_bridge_never_throws [of exampleHost _ "Map.empty(''amount'' \<mapsto> JNum 50)" exampleUser blockedWorld] b(1)
  have 2: "fst (executeExpenseTool exampleHost ''addExpense'' (Map.empty(''amount'' \<mapsto> JNum 50))
           exampleUser blockedWorld) = Inr (ToolError ''QuotaExceededError'')"
    by blast
  from tool_bridge_never_throws [of exampleHost _ "Map.empty(''id'' \<mapsto> JStr ''late45'')" exampleUser blockedWorld] b(2)
  have 3: "executeExpenseTool exampleHost ''deleteAppointment'' (Map.empty(''id'' \<mapsto> JStr ''late45''))
           exampleUser blockedWorld = (Inr (ToolError ''QuotaExceededError''), blockedWorld)"
    by blast
  from 1 2 3 show ?thesis by simp
qed

lemma retry_first:
  "chatSession c \<Longrightarrow> svc (sendCalls c) p = Inr r \<Longrightarrow>
   sendMessageWithRetry svc p c = (Inr r, c\<lparr>sendCalls := sendCalls c @ [p]\<rparr>)"
  by (simp add: sendMessageWithRetry_def sendLoop_ok)

lemma retry_second:
  "chatSession c \<Longrightarrow> svc (sendCalls c) p = Inl e1 \<Longrightarrow> svc (sendCalls c @ [p]) p = Inr r \<Longrightarrow>
   sendMessageWithRetry svc p c
     = (Inr r, c\<lparr>sendCalls := sendCalls c @ [p, p], delays := delays c @ [1000]\<rparr>)"
  by (simp add: sendMessageWithRetry_def sendLoop_fail sendLoop_ok)

lemma retry_third:
  "chatSession c \<Longrightarrow> svc (sendCalls c) p = Inl e1 \<Longrightarrow> svc (sendCalls c @ [p]) p = Inl e2 \<Longrightarrow>
   svc (sendCalls c @ [p, p]) p = Inr r \<Longrightarrow>
   sendMessageWithRetry svc p c
     = (Inr r, c\<lparr>sendCalls := sendCalls c @ [p, p, p], delays := delays c @ [1000, 2000]\<rparr>)"
  by (simp add: sendMessageWithRetry_def sendLoop_fail sendLoop_ok)

lemma retry_exhausted:
  "chatSession c \<Longrightarrow> svc (sendCalls c) p = Inl e1 \<Longrightarrow> svc (sendCalls c @ [p]) p = Inl e2 \<Longrightarrow>
   svc (sendCalls c @ [p, p]) p = Inl e3 \<Longrightarrow>
   sendMessageWithRetry svc p c
     = (Inl (Some e3),
        c\<lparr>sendCalls := sendCalls c @ [p, p, p], delays := delays c @ [1000, 2000, 3000]\<rparr>)"
  by (simp add: sendMessageWithRetry_def sendLoop_fail sendLoop_done)

lemma turn_after_two_failures:
  assumes "chatSession c" and "t \<noteq> []"
    and "svc (sendCalls c) (Message t) = Inl ea"
    and "svc (sendCalls c @ [Message t]) (Message t) = Inl eb"
    and "svc (sendCalls c @ [Message t, Message t]) (Message t) = Inr r"
    and "resp_functionCalls r = None" and "textOf r \<noteq> []"
  shows "messages (handleSend h svc user t None duration c)
           = messages c @ [userMessage t None duration, modelMessage (textOf r) noExtra]"
    and "sendCalls (handleSend h svc user t None duration c)
           = sendCalls c @ [Message t, Message t, Message t]"
    and "delays (handleSend h svc user t None duration c) = delays c @ [1000, 2000]"
proof -
  let ?c1 = "c\<lparr>messages := messages c @ [userMessage t None duration], isThinking := True,
                processingText := ''Ki fakar...''\<rparr>"
  have "sendMessageWithRetry svc (Message t) ?c1
      = (Inr r, ?c1\<lparr>sendCalls := sendCalls ?c1 @ [Message t, Message t, Message t],
                     delays := delays ?c1 @ [1000, 2000]\<rparr>)"
    using assms(1,3,4,5) by (intro retry_third) simp_all
  then have send: "firstSend svc t None ?c1
      = (Inr r, ?c1\<lparr>sendCalls := sendCalls c @ [Message t, Message t, Message t],
                     delays := delays c @ [1000, 2000]\<rparr>)"
    by (simp add: firstSend_def)
  show "messages (handleSend h svc user t None duration c)
           = messages c @ [userMessage t None duration, modelMessage (textOf r) noExtra]"
    and "sendCalls (handleSend h svc user t None duration c)
           = sendCalls c @ [Message t, Message t, Message t]"
    and "delays (handleSend h svc user t None duration c) = delays c @ [1000, 2000]"
    using assms(1,2,6,7)
    by (simp_all add: handleSend_def Let_def send resolveReply_def showReply_def speak_def)
qed

text \<open>
  Claim C6. With a chat session, \<open>sendMessageWithRetry\<close> makes at most three attempts:
  it returns the first successful answer; after the failed attempt number \<open>k\<close> it waits
  \<open>k * 1000\<close> ms; when all three fail it throws the third error, which \<open>handleSend\<close>
  shows as an error message. Two failures followed by a success give the answer after
  waits of 1000 and 2000 ms, and a text turn then ends with the user message and the
  model's reply, neither marked as an error.
\<close>

theorem bounded_retry:
  assumes "chatSession c"
  shows "(\<forall>r. svc (sendCalls c) p = Inr r \<longrightarrow>
            sendMessageWithRetry svc p c = (Inr r, c\<lparr>sendCalls := sendCalls c @ [p]\<rparr>))
       \<and> (\<forall>e1 r. svc (sendCalls c) p = Inl e1 \<and> svc (sendCalls c @ [p]) p = Inr r \<longrightarrow>
            sendMessageWithRetry svc p c
              = (Inr r, c\<lparr>sendCalls := sendCalls c @ [p, p], delays := delays c @ [1000]\<rparr>))
       \<and> (\<forall>e1 e2 r. svc (sendCalls c) p = Inl e1 \<and> svc (sendCalls c @ [p]) p = Inl e2
              \<and> svc (sendCalls c @ [p, p]) p = Inr r \<longrightarrow>
            sendMessageWithRetry svc p c
              = (Inr r, c\<lparr>sendCalls := sendCalls c @ [p, p, p],
                           delays := delays c @ [1000, 2000]\<rparr>))
       \<and> (\<forall>e1 e2 e3. svc (sendCalls c) p = Inl e1 \<and> svc (sendCalls c @ [p]) p = Inl e2
              \<and> svc (sendCalls c @ [p, p]) p = Inl e3 \<longrightarrow>
            sendMessageWithRetry svc p c
              = (Inl (Some e3), c\<lparr>sendCalls := sendCalls c @ [p, p, p],
                                  delays := delays c @ [1000, 2000, 3000]\<rparr>)
            \<and> (\<forall>t h user duration. p = Message t \<and> t \<noteq> [] \<longrightarrow>
                 messages (handleSend h svc user t None duration c)
                   = messages c @ [userMessage t None duration, errorMessage e3]))
       \<and> (\<forall>e1 e2 r t h user duration.
            p = Message t \<and> t \<noteq> [] \<and> svc (sendCalls c) p = Inl e1
              \<and> svc (sendCalls c @ [p]) p = Inl e2 \<and> svc (sendCalls c @ [p, p]) p = Inr r
              \<and> resp_functionCalls r = None \<and> textOf r \<noteq> [] \<longrightarrow>
            messages (handleSend h svc user t None duration c)
              = messages c @ [userMessage t None duration, modelMessage (textOf r) noExtra]
            \<and> \<not> msg_isError (userMessage t None duration)
            \<and> \<not> msg_isError (modelMessage (textOf r) noExtra)
            \<and> delays (handleSend h svc user t None duration c) = delays c @ [1000, 2000])"
proof -
  have surfaced: "messages (handleSend h svc user t None duration c)
                   = messages c @ [userMessage t None duration, errorMessage e3]"
    if "svc (sendCalls c) (Message t) = Inl e1" "svc (sendCalls c @ [Message t]) (Message t) = Inl e2"
      "svc (sendCalls c @ [Message t, Message t]) (Message t) = Inl e3" "t \<noteq> []"
    for t h user duration e1 e2 e3
  proof -
    let ?c1 = "c\<lparr>messages := messages c @ [userMessage t None duration], isThinking := True,
                  processingText := ''Ki fakar...''\<rparr>"
    have "sendMessageWithRetry svc (Message t) ?c1
        = (Inl (Some e3), ?c1\<lparr>sendCalls := sendCalls ?c1 @ [Message t, Message t, Message t],
                              delays := delays ?c1 @ [1000, 2000, 3000]\<rparr>)"
      using assms that(1,2,3) by (intro retry_exhausted) simp_all
    then show ?thesis
      using assms that(4) by (simp add: handleSend_def Let_def firstSend_def)
  qed
  have A: "\<forall>r. svc (sendCalls c) p = Inr r \<longrightarrow>
            sendMessageWithRetry svc p c = (Inr r, c\<lparr>sendCalls := sendCalls c @ [p]\<rparr>)"
    using assms retry_first by blast
  have B: "\<forall>e1 r. svc (sendCalls c) p = Inl e1 \<and> svc (sendCalls c @ [p]) p = Inr r \<longrightarrow>
            sendMessageWithRetry svc p c
              = (Inr r, c\<lparr>sendCalls := sendCalls c @ [p, p], delays := delays c @ [1000]\<rparr>)"
    using assms retry_second by blast
  have C: "\<forall>e1 e2 r. svc (sendCalls c) p = Inl e1 \<and> svc (sendCalls c @ [p]) p = Inl e2
              \<and> svc (sendCalls c @ [p, p]) p = Inr r \<longrightarrow>
            sendMessageWithRetry svc p c
              = (Inr r, c\<lparr>sendCalls := sendCalls c @ [p, p, p],
                           delays := delays c @ [1000, 2000]\<rparr>)"
    using assms retry_third by blast
  have D: "\<forall>e1 e2 e3. svc (sendCalls c) p = Inl e1 \<and> svc (sendCalls c @ [p]) p = Inl e2
              \<and> svc (sendCalls c @ [p, p]) p = Inl e3 \<longrightarrow>
            sendMessageWithRetry svc p c
              = (Inl (Some e3), c\<lparr>sendCalls := sendCalls c @ [p, p, p],
                                  delays := delays c @ [1000, 2000, 3000]\<rparr>)
            \<and> (\<forall>t h user duration. p = Message t \<and> t \<noteq> [] \<longrightarrow>
                 messages (handleSend h svc user t None duration c)
                   = messages c @ [userMessage t None duration, errorMessage e3])"
    using assms retry_exhausted [of c svc p] surfaced by blast
  have E: "\<forall>e1 e2 r t h user duration.
            p = Message t \<and> t \<noteq> [] \<and> svc (sendCalls c) p = Inl e1
              \<and> svc (sendCalls c @ [p]) p = Inl e2 \<and> svc (sendCalls c @ [p, p]) p = Inr r
              \<and> resp_functionCalls r = None \<and> textOf r \<noteq> [] \<longrightarrow>
            messages (handleSend h svc user t None duration c)
              = messages c @ [userMessage t None duration, modelMessage (textOf r) noExtra]
            \<and> \<not> msg_isError (userMessage t None duration)
            \<and> \<not> msg_isError (modelMessage (textOf r) noExtra)
            \<and> delays (handleSend h svc user t None duration c) = delays c @ [1000, 2000]"
  proof (intro allI impI)
    fix e1 e2 r t h user duration
    assume a: "p = Message t \<and> t \<noteq> [] \<and> svc (sendCalls c) p = Inl e1
              \<and> svc (sendCalls c @ [p]) p = Inl e2 \<and> svc (sendCalls c @ [p, p]) p = Inr r
              \<and> resp_functionCalls r = None \<and> textOf r \<noteq> []"
    then have t: "t \<noteq> []" and f1: "svc (sendCalls c) (Message t) = Inl e1"
      and f2: "svc (sendCalls c @ [Message t]) (Message t) = Inl e2"
      and f3: "svc (sendCalls c @ [Message t, Message t]) (Message t) = Inr r"
      and r: "resp_functionCalls r = None" "textOf r \<noteq> []"
      by auto
    have "messages (handleSend h svc user t None duration c)
              = messages c @ [userMessage t None duration, modelMessage (textOf r) noExtra]"
      and "delays (handleSend h svc user t None duration c) = delays c @ [1000, 2000]"
      using turn_after_two_failures [where svc = svc and c = c and t = t and ea = e1 and eb = e2
          and r = r and h = h and user = user and duration = duration] assms t f1 f2 f3 r
      by blast+
    moreover have "\<not> msg_isError (userMessage t None duration)"
      "\<not> msg_isError (modelMessage (textOf r) noExtra)"
      by (simp_all add: userMessage_def modelMessage_def)
    ultimately show "messages (handleSend h svc user t None duration c)
              = messages c @ [userMessage t None duration, modelMessage (textOf r) noExtra]
            \<and> \<not> msg_isError (userMessage t None duration)
            \<and> \<not> msg_isError (modelMessage (textOf r) noExtra)
            \<and> delays (handleSend h svc user t None duration c) = delays c @ [1000, 2000]"
      by simp
  qed
  show ?thesis by (intro conjI A B C D E)
qed

theorem bounded_retry_witness:
  "sendMessageWithRetry flakyService (Message ''salam'') exampleChat
     = (Inr \<lparr>resp_text = Some ''Salam'', resp_functionCalls = None\<rparr>,
        exampleChat\<lparr>sendCalls := [Message ''salam'', Message ''salam'', Message ''salam''],
                    delays := [1000, 2000]\<rparr>)
   \<and> map msg_text (messages (handleSend exampleHost flakyService exampleUser ''salam'' None None
                               exampleChat)) = [Some ''salam'', Some ''Salam'']
   \<and> map msg_isError (messages (handleSend exampleHost flakyService exampleUser ''salam'' None None
                               exampleChat)) = [False, False]
   \<and> fst (sendMessageWithRetry downService (Message ''salam'') exampleChat) = Inl (Some ''down !!'')"
proof -
  have s: "chatSession exampleChat" "sendCalls exampleChat = []" "delays exampleChat = []"
    "messages exampleChat = []"
    by (simp_all add: exampleChat_def)
  note T = bounded_retry [OF s(1), of flakyService "Message ''salam''"]
  note U = bounded_retry [OF s(1), of downService "Message ''salam''"]
  have f: "flakyService [] (Message ''salam'') = Inl ''503 unavailable''"
    "flakyService [Message ''salam''] (Message ''salam'') = Inl ''503 unavailable''"
    "flakyService [Message ''salam'', Message ''salam''] (Message ''salam'')
       = Inr \<lparr>resp_text = Some ''Salam'', resp_functionCalls = None\<rparr>"
    by (simp_all add: flakyService_def)
  have d: "downService [] (Message ''salam'') = Inl ''down ''"
    "downService [Message ''salam''] (Message ''salam'') = Inl ''down !''"
    "downService [Message ''salam'', Message ''salam''] (Message ''salam'') = Inl ''down !!''"
    by (simp_all add: downService_def)
  have 1: "sendMessageWithRetry flakyService (Message ''salam'') exampleChat
     = (Inr \<lparr>resp_text = Some ''Salam'', resp_functionCalls = None\<rparr>,
        exampleChat\<lparr>sendCalls := [Message ''salam'', Message ''salam'', Message ''salam''],
                    delays := [1000, 2000]\<rparr>)"
    using T [THEN conjunct2, THEN conjunct2, THEN conjunct1] f s by simp
  have 2: "messages (handleSend exampleHost flakyService exampleUser ''salam'' None None exampleChat)
      = [userMessage ''salam'' None None, modelMessage ''Salam'' noExtra]"
    using T [THEN conjunct2, THEN conjunct2, THEN conjunct2, THEN conjunct2] f s
    by (simp add: textOf_def)
  have 3: "fst (sendMessageWithRetry downService (Message ''salam'') exampleChat) = Inl (Some ''down !!'')"
    using U [THEN conjunct2, THEN conjunct2, THEN conjunct2, THEN conjunct1] d s by simp
  from 1 2 3 show ?thesis by (simp add: userMessage_def modelMessage_def)
qed

lemma showReply_sendCalls [simp]: "sendCalls (showReply t ex a c) = sendCalls c"
  by (simp add: showReply_def speak_def)

lemma showReply_messages:
  "messages (showReply t ex a c) =
     messages c @ (if t \<noteq> [] then [modelMessage t ex]
                   else if hasCard ex then [modelMessage ''Safi tqiyed.'' ex] else [])"
  by (simp add: showReply_def speak_def hasCard_def)

lemma dispatchCalls_answers:
  "dispatchCalls h user fcs ex frs c = (Inr (ex', frs'), c') \<Longrightarrow>
   frs' = frs @ map (\<lambda>(fc, w). answerTo h user fc w) (zip fcs (storesBefore h user fcs (store c)))"
proof (induction fcs arbitrary: ex frs c)
  case Nil
  then show ?case by simp
next
  case (Cons fc fcs)
  show ?case
  proof (cases "fc_name fc = ''requestManualEntry''")
    case True
    let ?p = "FunctionResponse \<lparr>fr_id = fc_id fc, fr_name = fc_name fc,
                                fr_response = ResultText ''Form shown''\<rparr>"
    let ?c1 = "c\<lparr>messages := messages c @ [formMessage (fc_args fc ''prefilledDescription'')]\<rparr>"
    from Cons.prems True have "dispatchCalls h user fcs ex (frs @ [?p]) ?c1 = (Inr (ex', frs'), c')"
      by simp
    from Cons.IH [OF this] True show ?thesis by (simp add: answerTo_def)
  next
    case False
    show ?thesis
    proof (cases "executeExpenseTool h (fc_name fc) (fc_args fc) user (store c)")
      case (Pair out w1)
      show ?thesis
      proof (cases out)
        case (Inl e)
        with Pair False Cons.prems show ?thesis by simp
      next
        case (Inr r)
        let ?p = "FunctionResponse \<lparr>fr_id = fc_id fc, fr_name = fc_name fc,
                                    fr_response = ResultTool r\<rparr>"
        from Cons.prems False Pair Inr
        have "dispatchCalls h user fcs (extraAfter (fc_name fc) r ex) (frs @ [?p]) (c\<lparr>store := w1\<rparr>)
                = (Inr (ex', frs'), c')"
          by simp
        from Cons.IH [OF this] False Pair Inr show ?thesis by (simp add: answerTo_def)
      qed
    qed
  qed
qed

text \<open>
  Claim C5. When the model's reply carries \<open>K \<ge> 1\<close> function calls, the loop over them
  ends with exactly \<open>K\<close> function responses, the \<open>k\<close>-th carrying the id and name of
  the \<open>k\<close>-th call and, as its body, what the tool bridge returned for that call on the
  store the earlier calls left (\<open>Form shown\<close> for the manual-entry call); nothing is
  sent while the loop runs; the responses then go out together as one message (sent once
  when the first attempt succeeds, at most three times under retry); and the model message
  of the turn carries the \<open>text\<close> of the answer to that message, whatever the text of
  the original reply was.
\<close>

theorem function_calls_resolved:
  assumes "resp_functionCalls result = Some fcs" and "fcs \<noteq> []" and "chatSession c"
  shows "\<exists>ex frs c1 res n ks.
      dispatchCalls h user fcs noExtra [] c = (Inr (ex, frs), c1)
    \<and> length frs = length fcs
    \<and> map responseKey frs = map (\<lambda>fc. Some (fc_id fc, fc_name fc)) fcs
    \<and> frs = map (\<lambda>(fc, w). answerTo h user fc w) (zip fcs (storesBefore h user fcs (store c)))
    \<and> sendCalls c1 = sendCalls c \<and> chatSession c1
    \<and> sendMessageWithRetry svc (MessageParts frs) c1
        = (res, c1\<lparr>sendCalls := sendCalls c @ replicate n (MessageParts frs),
                   delays := delays c @ ks\<rparr>)
    \<and> 1 \<le> n \<and> n \<le> 3
    \<and> ((\<exists>r2. svc (sendCalls c) (MessageParts frs) = Inr r2) \<longrightarrow> n = 1)
    \<and> sendCalls (snd (resolveReply h svc user audio result c))
        = sendCalls c @ replicate n (MessageParts frs)
    \<and> (\<forall>r2. res = Inr r2 \<longrightarrow>
          fst (resolveReply h svc user audio result c) = Inr ()
        \<and> messages (snd (resolveReply h svc user audio result c))
            = messages c @ formsFor fcs
              @ (if textOf r2 \<noteq> [] then [modelMessage (textOf r2) ex]
                 else if hasCard ex then [modelMessage ''Safi tqiyed.'' ex] else []))
    \<and> (\<forall>r2 t. res = Inr r2 \<and> resp_text r2 = Some t \<and> t \<noteq> [] \<longrightarrow>
          messages (snd (resolveReply h svc user audio result c))
            = messages c @ formsFor fcs @ [modelMessage t ex]
        \<and> msg_text (last (messages (snd (resolveReply h svc user audio result c)))) = Some t)
    \<and> (\<forall>r2. res = Inr r2 \<and> (resp_text r2 = None \<or> resp_text r2 = Some []) \<longrightarrow>
          messages (snd (resolveReply h svc user audio result c))
            = messages c @ formsFor fcs
              @ (if hasCard ex then [modelMessage ''Safi tqiyed.'' ex] else []))
    \<and> (\<forall>e. res = Inl e \<longrightarrow>
          fst (resolveReply h svc user audio result c) = Inl e
        \<and> messages (snd (resolveReply h svc user audio result c)) = messages c @ formsFor fcs)
    \<and> (\<forall>x. resolveReply h svc user audio (result\<lparr>resp_text := x\<rparr>) c
            = resolveReply h svc user audio result c)"
proof -
  from dispatchCalls_spec [of h user fcs noExtra "[]" c] obtain ex frs c1 where
    d: "dispatchCalls h user fcs noExtra [] c = (Inr (ex, frs), c1)"
    and k: "map responseKey frs = map (\<lambda>fc. Some (fc_id fc, fc_name fc)) fcs"
    and same: "sendCalls c1 = sendCalls c" "delays c1 = delays c" "chatSession c1 = chatSession c"
      "messages c1 = messages c @ formsFor fcs"
    by auto
  from k have len: "length frs = length fcs" by (rule map_eq_imp_length_eq)
  from dispatchCalls_answers [OF d]
  have ans: "frs = map (\<lambda>(fc, w). answerTo h user fc w)
                     (zip fcs (storesBefore h user fcs (store c)))"
    by simp
  from same(3) assms(3) have sess: "chatSession c1" by simp
  from sendMessageWithRetry_frame [of svc "MessageParts frs" c1] sess
  obtain res n ks where
    s: "sendMessageWithRetry svc (MessageParts frs) c1
          = (res, c1\<lparr>sendCalls := sendCalls c1 @ replicate n (MessageParts frs),
                     delays := delays c1 @ ks\<rparr>)"
    and n: "n \<le> 3" "1 \<le> n"
    by auto
  let ?c2 = "c1\<lparr>sendCalls := sendCalls c @ replicate n (MessageParts frs), delays := delays c @ ks\<rparr>"
  let ?out = "resolveReply h svc user audio result c"
  from s same have s': "sendMessageWithRetry svc (MessageParts frs) c1 = (res, ?c2)" by simp
  obtain fc rest where fcs: "fcs = fc # rest" using assms(2) by (cases fcs) auto
  have rr: "?out =
      (case res of Inl e \<Rightarrow> (Inl e, ?c2)
       | Inr r2 \<Rightarrow> (Inr (), showReply (textOf r2) ex audio ?c2))"
    using assms(1) d s' unfolding fcs resolveReply_def by (simp split: sum.splits)
  have calls: "sendCalls (snd ?out) = sendCalls c @ replicate n (MessageParts frs)"
    unfolding rr by (cases res) simp_all
  have ok: "fst ?out = Inr ()
        \<and> messages (snd ?out)
            = messages c @ formsFor fcs
              @ (if textOf r2 \<noteq> [] then [modelMessage (textOf r2) ex]
                 else if hasCard ex then [modelMessage ''Safi tqiyed.'' ex] else [])"
    if "res = Inr r2" for r2
    unfolding rr using that same(4) by (simp add: showReply_messages)
  have pinned: "messages (snd ?out) = messages c @ formsFor fcs @ [modelMessage t ex]
        \<and> msg_text (last (messages (snd ?out))) = Some t"
    if "res = Inr r2 \<and> resp_text r2 = Some t \<and> t \<noteq> []" for r2 t
    using ok [of r2] that by (simp add: textOf_def modelMessage_def)
  have empty: "messages (snd ?out)
            = messages c @ formsFor fcs
              @ (if hasCard ex then [modelMessage ''Safi tqiyed.'' ex] else [])"
    if "res = Inr r2 \<and> (resp_text r2 = None \<or> resp_text r2 = Some [])" for r2
    using ok [of r2] that by (auto simp: textOf_def)
  have bad: "fst ?out = Inl e \<and> messages (snd ?out) = messages c @ formsFor fcs"
    if "res = Inl e" for e
    unfolding rr using that same(4) by simp
  have once: "n = 1" if "svc (sendCalls c) (MessageParts frs) = Inr r2" for r2
  proof -
    have "sendMessageWithRetry svc (MessageParts frs) c1
        = (Inr r2, c1\<lparr>sendCalls := sendCalls c1 @ [MessageParts frs]\<rparr>)"
      using same(1) sess that by (intro retry_first) simp_all
    with s' have "sendCalls ?c2 = sendCalls (c1\<lparr>sendCalls := sendCalls c1 @ [MessageParts frs]\<rparr>)"
      by simp
    then have "replicate n (MessageParts frs) = [MessageParts frs]"
      using same(1) by simp
    then have "length (replicate n (MessageParts frs)) = 1" by simp
    then show ?thesis by simp
  qed
  have indep: "resolveReply h svc user audio (result\<lparr>resp_text := x\<rparr>) c = ?out" for x
    using assms(1) unfolding fcs resolveReply_def by simp
  have once': "(\<exists>r2. svc (sendCalls c) (MessageParts frs) = Inr r2) \<longrightarrow> n = 1"
    using once by blast
  from d len k ans same(1) sess s' n once' calls ok pinned empty bad indep
  show ?thesis by blast
qed

lemmas run_defs =
  handleSend_def firstSend_def resolveReply_def sendMessageWithRetry_def sendLoop.simps
  showReply_def speak_def textOf_def extraAfter_def noExtra_def
  executeExpenseTool_def toolBody_def addExpense_def updateUser_def saveUsers_def saveExpenses_def
  setCurrentUser_def randomUUID_def bind_exn_def js_or_def Let_def
  scriptedService_def expenseCall_def budgetCall_def exampleChat_def exampleWorld_def
  exampleUser_def exampleHost_def USERS_KEY_def EXPENSES_KEY_def CURRENT_USER_KEY_def

lemma two_call_turn:
  "map msg_text (messages (handleSend exampleHost
       (scriptedService [expenseCall, budgetCall] (Some ''follow-up reply''))
       exampleUser ''chrit tajine'' None None exampleChat))
     = [Some ''chrit tajine'', Some ''follow-up reply'']"
  by (simp add: run_defs userMessage_def modelMessage_def)

lemma two_call_sends:
  "map (\<lambda>p. case p of Message t \<Rightarrow> [] | MessageParts ps \<Rightarrow> map responseKey ps)
     (sendCalls (handleSend exampleHost
       (scriptedService [expenseCall, budgetCall] (Some ''follow-up reply''))
       exampleUser ''chrit tajine'' None None exampleChat))
     = [[], [Some (Some ''call-1'', ''addExpense''), Some (Some ''call-2'', ''setBudget'')]]"
  by (simp add: run_defs)


lemma responseKey_Some: "responseKey p = Some k \<Longrightarrow> \<exists>r. p = FunctionResponse r"
  by (cases p) simp_all

theorem function_calls_resolved_witness:
  "map msg_text (messages (snd (resolveReply exampleHost
       (scriptedService [expenseCall, budgetCall] (Some ''follow-up reply''))
       exampleUser False twoCallReply exampleChat)))
     = [Some ''follow-up reply'']
   \<and> (\<exists>frs. sendCalls (snd (resolveReply exampleHost
                  (scriptedService [expenseCall, budgetCall] (Some ''follow-up reply''))
                  exampleUser False twoCallReply exampleChat))
              = [MessageParts frs]
          \<and> map responseKey frs
              = [Some (Some ''call-1'', ''addExpense''), Some (Some ''call-2'', ''setBudget'')]
          \<and> map resultLine frs
              = [''Expense added successfully'', ''Budget set to a value DH''])"
proof -
  let ?svc = "scriptedService [expenseCall, budgetCall] (Some ''follow-up reply'')"
  let ?out = "resolveReply exampleHost ?svc exampleUser False twoCallReply exampleChat"
  have a: "resp_functionCalls twoCallReply = Some [expenseCall, budgetCall]"
    by (simp add: twoCallReply_def)
  have b: "[expenseCall, budgetCall] \<noteq> []" by simp
  have c: "chatSession exampleChat" "sendCalls exampleChat = []" "messages exampleChat = []"
    by (simp_all add: exampleChat_def)
  from function_calls_resolved [OF a b c(1), of exampleHost exampleUser ?svc False]
  obtain ex frs c1 res n ks where
    k: "map responseKey frs = map (\<lambda>fc. Some (fc_id fc, fc_name fc)) [expenseCall, budgetCall]"
    and ans: "frs = map (\<lambda>(fc, w). answerTo exampleHost exampleUser fc w)
                      (zip [expenseCall, budgetCall]
                         (storesBefore exampleHost exampleUser [expenseCall, budgetCall]
                            (store exampleChat)))"
    and s: "sendCalls c1 = sendCalls exampleChat" "chatSession c1"
    and send: "sendMessageWithRetry ?svc (MessageParts frs) c1
        = (res, c1\<lparr>sendCalls := sendCalls exampleChat @ replicate n (MessageParts frs),
                   delays := delays exampleChat @ ks\<rparr>)"
    and once: "(\<exists>r2. ?svc (sendCalls exampleChat) (MessageParts frs) = Inr r2) \<longrightarrow> n = 1"
    and calls: "sendCalls (snd ?out) = sendCalls exampleChat @ replicate n (MessageParts frs)"
    and pinned: "\<forall>r2 t. res = Inr r2 \<and> resp_text r2 = Some t \<and> t \<noteq> [] \<longrightarrow>
          messages (snd ?out)
            = messages exampleChat @ formsFor [expenseCall, budgetCall] @ [modelMessage t ex]
        \<and> msg_text (last (messages (snd ?out))) = Some t"
    by blast
  from k obtain r ps where shape: "frs = FunctionResponse r # ps"
    by (cases frs) (auto dest: responseKey_Some)
  have answer: "?svc hist (MessageParts frs)
      = Inr \<lparr>resp_text = Some ''follow-up reply'', resp_functionCalls = None\<rparr>" for hist
    by (simp add: shape scriptedService_def)
  with once have n: "n = 1" by blast
  have "sendMessageWithRetry ?svc (MessageParts frs) c1
      = (Inr \<lparr>resp_text = Some ''follow-up reply'', resp_functionCalls = None\<rparr>,
         c1\<lparr>sendCalls := sendCalls c1 @ [MessageParts frs]\<rparr>)"
    using s(2) answer by (rule retry_first)
  with send have res: "res = Inr \<lparr>resp_text = Some ''follow-up reply'', resp_functionCalls = None\<rparr>"
    by simp
  from pinned res have "messages (snd ?out)
      = messages exampleChat @ formsFor [expenseCall, budgetCall]
        @ [modelMessage ''follow-up reply'' ex]"
    by simp
  then have 1: "map msg_text (messages (snd ?out)) = [Some ''follow-up reply'']"
    by (simp add: c(3) formsFor_def expenseCall_def budgetCall_def modelMessage_def)
  from calls n c(2) have 2: "sendCalls (snd ?out) = [MessageParts frs]" by simp
  from k have 3: "map responseKey frs
      = [Some (Some ''call-1'', ''addExpense''), Some (Some ''call-2'', ''setBudget'')]"
    by (simp add: expenseCall_def budgetCall_def)
  have 4: "map resultLine frs = [''Expense added successfully'', ''Budget set to a value DH'']"
    unfolding ans by (simp add: answerTo_def run_defs)
  show ?thesis
    by (intro conjI exI [of _ frs]) (rule 1, rule 2, rule 3, rule 4)
qed

lemma sendMessageWithRetry_messages:
  "sendMessageWithRetry svc p c = (res, c') \<Longrightarrow> messages c' = messages c"
  using sendMessageWithRetry_frame [of svc p c] by auto

text \<open>
  Claim C7, amended. When the answer to the tool responses has no text, the dispatcher
  appends the model message \<open>Safi tqiyed.\<close> exactly when some \<open>addExpense\<close> or
  \<open>addAppointment\<close> call of the turn returned its created record; otherwise it appends
  nothing.
\<close>

theorem confirmation_for_created_card:
  assumes "resp_functionCalls result = Some fcs" and "fcs \<noteq> []"
    and "dispatchCalls h user fcs noExtra [] c = (Inr (ex, frs), c1)"
    and "sendMessageWithRetry svc (MessageParts frs) c1 = (Inr r2, c2)"
    and "textOf r2 = []"
  shows "(list_ex createdCard frs \<longrightarrow>
            messages (snd (resolveReply h svc user audio result c))
              = messages c @ formsFor fcs @ [modelMessage ''Safi tqiyed.'' ex])
       \<and> (\<not> list_ex createdCard frs \<longrightarrow>
            messages (snd (resolveReply h svc user audio result c)) = messages c @ formsFor fcs)"
proof -
  from dispatchCalls_spec [of h user fcs noExtra "[]" c] assms(3)
  have m1: "messages c1 = messages c @ formsFor fcs"
    and card: "hasCard ex \<longleftrightarrow> list_ex createdCard frs"
    by (auto simp: hasCard_def noExtra_def)
  from assms(4) have m2: "messages c2 = messages c1"
    by (rule sendMessageWithRetry_messages)
  obtain fc rest where fcs: "fcs = fc # rest" using assms(2) by (cases fcs) auto
  have "resolveReply h svc user audio result c = (Inr (), showReply [] ex audio c2)"
    using assms(1,3,4,5) unfolding fcs resolveReply_def by simp
  then show ?thesis
    using m1 m2 card by (simp add: showReply_messages)
qed

theorem confirmation_for_created_card_witness:
  "map msg_text (messages (snd (resolveReply exampleHost (scriptedService [expenseCall] None)
      exampleUser False \<lparr>resp_text = None, resp_functionCalls = Some [expenseCall]\<rparr> exampleChat)))
     = [Some ''Safi tqiyed.'']"
proof -
  let ?svc = "scriptedService [expenseCall] None"
  let ?result = "\<lparr>resp_text = None, resp_functionCalls = Some [expenseCall]\<rparr>"
  from dispatchCalls_spec [of exampleHost exampleUser "[expenseCall]" noExtra "[]" exampleChat]
  obtain ex frs c1 where
    d: "dispatchCalls exampleHost exampleUser [expenseCall] noExtra [] exampleChat
          = (Inr (ex, frs), c1)"
    and k: "map responseKey frs = map (\<lambda>fc. Some (fc_id fc, fc_name fc)) [expenseCall]"
    and s: "chatSession c1 = chatSession exampleChat"
    by auto
  from k obtain r where frs: "frs = [FunctionResponse r]"
    by (auto dest: responseKey_Some)
  have "case dispatchCalls exampleHost exampleUser [expenseCall] noExtra [] exampleChat of
          (Inr (ex, frs), c1) \<Rightarrow> list_ex createdCard frs | _ \<Rightarrow> False"
    by (simp add: run_defs)
  with d have created: "list_ex createdCard frs" by simp
  have "chatSession c1" using s by (simp add: exampleChat_def)
  moreover have "?svc (sendCalls c1) (MessageParts frs)
      = Inr \<lparr>resp_text = None, resp_functionCalls = None\<rparr>"
    by (simp add: frs scriptedService_def)
  ultimately have send: "sendMessageWithRetry ?svc (MessageParts frs) c1
      = (Inr \<lparr>resp_text = None, resp_functionCalls = None\<rparr>,
         c1\<lparr>sendCalls := sendCalls c1 @ [MessageParts frs]\<rparr>)"
    by (rule retry_first)
  have "messages (snd (resolveReply exampleHost ?svc exampleUser False ?result exampleChat))
      = messages exampleChat @ formsFor [expenseCall] @ [modelMessage ''Safi tqiyed.'' ex]"
    using confirmation_for_created_card [where result = ?result and fcs = "[expenseCall]"
        and h = exampleHost and user = exampleUser and c = exampleChat and ex = ex and frs = frs
        and ?c1.0 = c1 and svc = ?svc and ?r2.0 = "\<lparr>resp_text = None, resp_functionCalls = None\<rparr>"
        and ?c2.0 = "c1\<lparr>sendCalls := sendCalls c1 @ [MessageParts frs]\<rparr>" and audio = False]
      d send created
    by (simp add: textOf_def)
  then show ?thesis
    by (simp add: exampleChat_def formsFor_def expenseCall_def modelMessage_def)
qed

text \<open>
  The claim as stated speaks of any mutating tool. A turn whose only call is a successful
  \<open>setBudget\<close> (the stored budget goes from 0 to 3000, the tool returns a result) and
  whose final reply has no text ends with the user's message alone.
\<close>

theorem confirmation_setBudget_counterexample:
  "map (\<lambda>u. u ''budget'') (ls_users (store exampleChat)) = [Some (JNum 0)]
   \<and> map (\<lambda>u. u ''budget'')
        (ls_users (store (handleSend exampleHost (scriptedService [budgetCall] None)
                            exampleUser ''budget 3000'' None None exampleChat)))
      = [Some (JNum 3000)]
   \<and> map (\<lambda>p. case p of
                 MessageParts [FunctionResponse r] \<Rightarrow>
                   (case fr_response r of
                      ResultTool (ToolUser m u) \<Rightarrow> ''result: '' @ m
                    | ResultTool (ToolError m) \<Rightarrow> ''error: '' @ m
                    | _ \<Rightarrow> ''other'')
               | _ \<Rightarrow> ''not a single function response'')
        (sendCalls (handleSend exampleHost (scriptedService [budgetCall] None)
                      exampleUser ''budget 3000'' None None exampleChat))
      = [''not a single function response'', ''result: Budget set to a value DH'']
   \<and> messages (handleSend exampleHost (scriptedService [budgetCall] None)
                  exampleUser ''budget 3000'' None None exampleChat)
      = [userMessage ''budget 3000'' None None]"
  by (simp add: run_defs)

section \<open>Properties of the live voice session\<close>

text \<open>
  Claim C3 fails on the code. After the session has opened and the user has pressed the
  mute button, the state \<open>isMuted\<close> is true, yet a capture frame that arrives is still
  encoded and sent: \<^verbatim>\<open>onaudioprocess\<close> reads the \<^verbatim>\<open>isMuted\<close> of the first render.
\<close>

theorem muted_frame_still_sent:
  "isMuted (toggleMute (onopen (connect None (initialLive w))))
   \<and> isConnected (toggleMute (onopen (connect None (initialLive w))))
   \<and> \<not> closing (toggleMute (onopen (connect None (initialLive w))))
   \<and> sentMedia (initialLive w) = []
   \<and> sentMedia (onaudioprocess inputData (toggleMute (onopen (connect None (initialLive w)))))
       = [inputData]"
  by (simp add: onaudioprocess_def toggleMute_def onopen_def connect_def initialLive_def)

lemma liveToolCalls_frame:
  "\<exists>rs w1. liveToolCalls h user fcs s
      = (Inr (), s\<lparr>liveStore := w1, toolResponses := toolResponses s @ rs\<rparr>)"
proof (induction fcs arbitrary: s)
  case Nil
  show ?case by (intro exI [of _ "[]"] exI [of _ "liveStore s"]) simp
next
  case (Cons fc fcs)
  obtain r w1 where t: "executeExpenseTool h (fc_name fc) (fc_args fc) user (liveStore s) = (Inr r, w1)"
    using executeExpenseTool_returns by blast
  let ?x = "\<lparr>fr_id = fc_id fc, fr_name = fc_name fc, fr_response = ResultTool r\<rparr>"
  let ?s1 = "s\<lparr>liveStore := w1, toolResponses := toolResponses s @ [?x]\<rparr>"
  from Cons.IH [of ?s1] obtain rs w2 where
    "liveToolCalls h user fcs ?s1
       = (Inr (), ?s1\<lparr>liveStore := w2, toolResponses := toolResponses ?s1 @ rs\<rparr>)"
    by blast
  then have "liveToolCalls h user (fc # fcs) s
       = (Inr (), s\<lparr>liveStore := w2, toolResponses := toolResponses s @ (?x # rs)\<rparr>)"
    using t by simp
  then show ?case by (intro exI [of _ "?x # rs"] exI [of _ w2])
qed

lemma live_tool_step:
  "\<exists>rs w1. (case lm_toolCall msg of Some fcs \<Rightarrow> liveToolCalls h user fcs s | None \<Rightarrow> (Inr (), s))
      = (Inr (), s\<lparr>liveStore := w1, toolResponses := toolResponses s @ rs\<rparr>)"
proof (cases "lm_toolCall msg")
  case None
  then show ?thesis by (intro exI [of _ "[]"] exI [of _ "liveStore s"]) simp
next
  case (Some fcs)
  with liveToolCalls_frame [of h user fcs s] show ?thesis by simp
qed

lemma onmessage_interrupted:
  assumes "\<not> closing s" and "lm_interrupted msg"
  shows "sources (onmessage h user currentTime msg s) = []"
    and "nextStartTime (onmessage h user currentTime msg s) = 0"
    and "\<not> closing (onmessage h user currentTime msg s)"
    and "\<exists>extra. stopped (onmessage h user currentTime msg s) = stopped s @ sources s @ extra"
    and "lm_audio msg = None \<or> lm_audio msg = Some [] \<Longrightarrow>
           stopped (onmessage h user currentTime msg s) = stopped s @ sources s"
proof -
  from live_tool_step [where msg = msg and h = h and user = user and s = s] obtain rs w1 where
    t: "(case lm_toolCall msg of Some fcs \<Rightarrow> liveToolCalls h user fcs s | None \<Rightarrow> (Inr (), s))
          = (Inr (), s\<lparr>liveStore := w1, toolResponses := toolResponses s @ rs\<rparr>)"
    by blast
  show "sources (onmessage h user currentTime msg s) = []"
    and "nextStartTime (onmessage h user currentTime msg s) = 0"
    and "\<not> closing (onmessage h user currentTime msg s)"
    and "\<exists>extra. stopped (onmessage h user currentTime msg s) = stopped s @ sources s @ extra"
    using assms t
    by (simp_all add: onmessage_def Let_def interrupt_def scheduleAudio_def split: option.splits)
  show "stopped (onmessage h user currentTime msg s) = stopped s @ sources s"
    if "lm_audio msg = None \<or> lm_audio msg = Some []"
    using assms t that
    by (auto simp: onmessage_def Let_def interrupt_def)
qed

lemma onmessage_audio_start:
  assumes "\<not> closing s" and "lm_audio msg = Some b" and "b \<noteq> []"
  shows "started (onmessage h user currentTime msg s)
           = started s @ [(sourceCount s, max (nextStartTime s) currentTime)]"
proof -
  from live_tool_step [where msg = msg and h = h and user = user and s = s] obtain rs w1 where
    t: "(case lm_toolCall msg of Some fcs \<Rightarrow> liveToolCalls h user fcs s | None \<Rightarrow> (Inr (), s))
          = (Inr (), s\<lparr>liveStore := w1, toolResponses := toolResponses s @ rs\<rparr>)"
    by blast
  show ?thesis
    using assms t by (simp add: onmessage_def Let_def scheduleAudio_def interrupt_def)
qed

text \<open>
  Claim C4. A message with the interruption flag, received by a session that is not
  closing, stops every tracked source, empties the tracked set and sets the cursor to 0;
  the next audio frame, arriving at any clock time \<open>now \<ge> 0\<close>, is then started at \<open>now\<close>.
\<close>

theorem interruption_resets_playback:
  assumes "\<not> closing s" and "lm_interrupted msg"
  shows "sources (onmessage h user currentTime msg s) = []
       \<and> set (sources s) \<subseteq> set (stopped (onmessage h user currentTime msg s))
       \<and> ((lm_audio msg = None \<or> lm_audio msg = Some []) \<longrightarrow>
            stopped (onmessage h user currentTime msg s) = stopped s @ sources s)
       \<and> nextStartTime (onmessage h user currentTime msg s) = 0
       \<and> (\<forall>msg' b now. lm_audio msg' = Some b \<and> b \<noteq> [] \<and> 0 \<le> now \<longrightarrow>
            started (onmessage h user now msg' (onmessage h user currentTime msg s))
              = started (onmessage h user currentTime msg s)
                @ [(sourceCount (onmessage h user currentTime msg s), now)])"
proof -
  let ?s' = "onmessage h user currentTime msg s"
  note I = onmessage_interrupted [OF assms, of h user currentTime]
  from I(4) have 2: "set (sources s) \<subseteq> set (stopped ?s')" by auto
  have 4: "started (onmessage h user now msg' ?s') = started ?s' @ [(sourceCount ?s', now)]"
    if "lm_audio msg' = Some b" "b \<noteq> []" "0 \<le> now" for msg' b now
    using onmessage_audio_start [OF I(3) that(1,2), of h user now] I(2) that(3) by simp
  from I(1) 2 I(5) I(2) 4 show ?thesis by blast
qed

theorem interruption_resets_playback_witness:
  "sources (onmessage exampleHost exampleUser 2 interruption playingSession) = []
   \<and> stopped (onmessage exampleHost exampleUser 2 interruption playingSession) = [0, 1]
   \<and> nextStartTime playingSession = 21
   \<and> started (onmessage exampleHost exampleUser 3 (audioFrame ''abcd'')
               (onmessage exampleHost exampleUser 2 interruption playingSession))
       = [(0, 1), (1, 11), (2, 3)]"
proof -
  have p: "playingSession =
      (initialLive exampleWorld)
        \<lparr>isConnected := True, scope_isMuted := Some False, processorOn := True,
         statusMessage := ''Knasme3 (Listening)...'',
         nextStartTime := 21, sources := [0, 1], sourceCount := 2,
         started := [(0, 1), (1, 11)]\<rparr>"
    by (simp add: playingSession_def audioFrame_def onmessage_def scheduleAudio_def onopen_def
        connect_def initialLive_def exampleHost_def Let_def)
  have a: "\<not> closing playingSession" "lm_interrupted interruption"
    "lm_audio interruption = None" "stopped playingSession = []" "sources playingSession = [0, 1]"
    "nextStartTime playingSession = 21"
    by (simp_all add: p interruption_def initialLive_def)
  have b: "lm_audio (audioFrame ''abcd'') = Some ''abcd''" "''abcd'' \<noteq> []" "(0::real) \<le> 3"
    by (simp_all add: audioFrame_def)
  have c: "started (onmessage exampleHost exampleUser 2 interruption playingSession) = [(0, 1), (1, 11)]"
    "sourceCount (onmessage exampleHost exampleUser 2 interruption playingSession) = 2"
    by (simp_all add: onmessage_def interrupt_def p interruption_def initialLive_def)
  note T = interruption_resets_playback [OF a(1,2), of exampleHost exampleUser 2]
  from T have 1: "sources (onmessage exampleHost exampleUser 2 interruption playingSession) = []"
    by blast
  from T a(3,4,5) have 2: "stopped (onmessage exampleHost exampleUser 2 interruption playingSession) = [0, 1]"
    by simp
  from T b have "started (onmessage exampleHost exampleUser 3 (audioFrame ''abcd'')
               (onmessage exampleHost exampleUser 2 interruption playingSession))
       = started (onmessage exampleHost exampleUser 2 interruption playingSession)
                @ [(sourceCount (onmessage exampleHost exampleUser 2 interruption playingSession), 3)]"
    by blast
  with c have 3: "started (onmessage exampleHost exampleUser 3 (audioFrame ''abcd'')
               (onmessage exampleHost exampleUser 2 interruption playingSession))
       = [(0, 1), (1, 11), (2, 3)]"
    by simp
  from 1 2 3 a(6) show ?thesis by simp
qed

end
